theory Spec2Isabelle
  imports Complex_Main
begin

section \<open>The benchmark harness: scripts/plot\_runtime\_vs\_n2.py and scripts/plot\_approx\_runtime\_vs\_n2.py\<close>

text \<open>
  The two scripts drive external programs (cargo, input-generator, exact-solver,
  approx-solver) and plot the measured running times. The embedding threads an explicit
  \<open>world\<close> (existing paths, the performance counter, the processes started, the
  lines printed, the figures saved) through every function, and returns either a value
  or the exception that leaves the function. The behaviour of the external programs is a
  parameter (\<open>os_spawn\<close>); so are the float formatting of Python and \<open>Path.resolve\<close>.
\<close>

subsection \<open>Exceptions, console output, figures, the world\<close>

text \<open>
  What can end a call without a value: the exceptions the scripts raise or let through,
  and \<open>Hang\<close>, which is no exception: the call never returns (a child process that
  never exits, waited for without a timeout). No handler catches it.
\<close>

datatype abort =
    TimeoutExpired string
  | OSError
  | UnicodeDecodeError
  | RuntimeError string
  | SystemExit int
  | IndexError
  | ValueError
  | Hang

text \<open>
  A printed line is kept as the pieces of its f-string: text, integers, a float under
  \<open>:.6f\<close>, a list of strings or of integers under \<open>str\<close>, and the first ten lines of
  a stripped output. How Python formats them is not modelled.
\<close>

datatype frag =
    Txt string
  | Num int
  | Flt6 real
  | Lst "string list"
  | NumLst "int list"
  | Head10 string

text \<open>A figure: the plotted series (label, xs, ys) in plotting order, and the y scale.
  The legend lists the labels of the plotted series. Styling is not modelled.\<close>

record figure =
  series :: "(string \<times> int list \<times> real list) list"
  log_y :: bool

record world =
  files :: "string set"
  clock :: real
  spawned :: "(string list \<times> string \<times> int option) list"
  printed :: "frag list list"
  saved :: "(string \<times> figure) list"

type_synonym 'a prog = "world \<Rightarrow> (abort + 'a) \<times> world"

text \<open>
  An external process, as the operating system runs it: whether and after how many
  seconds it exits by itself, its exit status and combined output, whether that output
  is valid text in the encoding of the locale, and the paths that exist once it has
  exited, or once it has been killed after \<open>t\<close> seconds.
  \<open>os_spawn env cmd cwd fs now\<close> is the process that \<open>cmd\<close> starts in directory
  \<open>cwd\<close> when the paths \<open>fs\<close> exist and the clock reads \<open>now\<close>, or None when
  the command cannot be started.
\<close>

record proc =
  lifetime :: "real option"
  returncode :: int
  stdout :: string
  decodable :: bool
  files_exit :: "string set"
  files_killed :: "int \<Rightarrow> string set"

record env =
  PROJECT_ROOT :: string
  os_spawn :: "string list \<Rightarrow> string \<Rightarrow> string set \<Rightarrow> real \<Rightarrow> proc option"
  str_float :: "real \<Rightarrow> string"
  timeout_text :: "string list \<Rightarrow> int \<Rightarrow> string"
  resolve :: "string \<Rightarrow> string"

subsection \<open>Strings and paths\<close>

text \<open>\<open>str(n)\<close> for an integer: decimal digits, a minus sign for negative numbers.\<close>

definition digit_char :: "nat \<Rightarrow> char" where
  "digit_char d = ''0123456789'' ! d"

function str_nat :: "nat \<Rightarrow> string" where
  "str_nat n = (if n < 10 then [digit_char n] else str_nat (n div 10) @ [digit_char (n mod 10)])"
  by pat_completeness auto
termination
  by (relation "measure id") auto

declare str_nat.simps [simp del]

definition str_int :: "int \<Rightarrow> string" where
  "str_int i = (if i < 0 then CHR ''-'' # str_nat (nat (- i)) else str_nat (nat i))"

text \<open>\<open>s.split(sep)\<close> for a one-character separator.\<close>

fun split_on :: "char \<Rightarrow> string \<Rightarrow> string list" where
  "split_on sep [] = [[]]"
| "split_on sep (c # cs) =
     (if c = sep then [] # split_on sep cs
      else (c # hd (split_on sep cs)) # tl (split_on sep cs))"

text \<open>
  pathlib: \<open>a / b\<close> for a relative \<open>b\<close> (only the root ends with a slash), \<open>name\<close>,
  \<open>parent\<close> and \<open>stem\<close> (the name without its last suffix; a leading or a trailing dot
  starts no suffix).
\<close>

definition joinp :: "string \<Rightarrow> string \<Rightarrow> string" where
  "joinp a b = (if a = ''/'' then a @ b else a @ ''/'' @ b)"

definition name_of :: "string \<Rightarrow> string" where
  "name_of p = last (split_on (CHR ''/'') p)"

definition parent :: "string \<Rightarrow> string" where
  "parent p =
     (let k = length (name_of p) in
      if length p \<le> k then ''.''
      else if length p = Suc k then ''/''
      else take (length p - Suc k) p)"

definition stem :: "string \<Rightarrow> string" where
  "stem p =
     (let name = name_of p;
          i = length name - Suc (length (takeWhile (\<lambda>c. c \<noteq> CHR ''.'') (rev name)))
      in if CHR ''.'' \<in> set name \<and> 0 < i \<and> Suc i < length name then take i name else name)"

text \<open>\<open>instance_path.stem.split('_')[i]\<close>, with the IndexError of a short list.\<close>

definition stem_part :: "string \<Rightarrow> nat \<Rightarrow> abort + string" where
  "stem_part p i =
     (let parts = split_on (CHR ''_'') (stem p) in
      if i < length parts then Inr (parts ! i) else Inl IndexError)"

definition BIN_DIR :: "env \<Rightarrow> string" where
  "BIN_DIR env = joinp (joinp (PROJECT_ROOT env) ''target'') ''release''"

definition EXAMPLES_DIR :: "env \<Rightarrow> string" where
  "EXAMPLES_DIR env = joinp (PROJECT_ROOT env) ''examples''"

definition GEN_DIR :: "env \<Rightarrow> string" where
  "GEN_DIR env = joinp (EXAMPLES_DIR env) ''generated_benchmarks''"

subsection \<open>The sweep of sizes: \<open>list(range(start, end + 1, step))\<close>\<close>

function range_up :: "int \<Rightarrow> int \<Rightarrow> int \<Rightarrow> int list" where
  "range_up i stop step = (if 0 < step \<and> i < stop then i # range_up (i + step) stop step else [])"
  by pat_completeness auto
termination
  by (relation "measure (\<lambda>(i, stop, step). nat (stop - i))") auto

function range_down :: "int \<Rightarrow> int \<Rightarrow> int \<Rightarrow> int list" where
  "range_down i stop step = (if step < 0 \<and> stop < i then i # range_down (i + step) stop step else [])"
  by pat_completeness auto
termination
  by (relation "measure (\<lambda>(i, stop, step). nat (i - stop))") auto

declare range_up.simps [simp del] range_down.simps [simp del]

definition py_range :: "int \<Rightarrow> int \<Rightarrow> int \<Rightarrow> abort + int list" where
  "py_range start stop step =
     (if step = 0 then Inl ValueError
      else if 0 < step then Inr (range_up start stop step)
      else Inr (range_down start stop step))"

text \<open>The sweep both scripts derive from their three arguments (end inclusive).\<close>

definition sweep_values :: "int \<Rightarrow> int \<Rightarrow> int \<Rightarrow> abort + int list" where
  "sweep_values start end step = py_range start (end + 1) step"

subsection \<open>Primitive effects\<close>

definition say :: "frag list \<Rightarrow> world \<Rightarrow> world" where
  "say l w = w\<lparr>printed := printed w @ [l]\<rparr>"

definition path_exists :: "string \<Rightarrow> world \<Rightarrow> bool" where
  "path_exists p w \<longleftrightarrow> p \<in> files w"

text \<open>\<open>d.mkdir(parents=True, exist_ok=True)\<close>: the directory exists afterwards.\<close>

definition mkdir :: "string \<Rightarrow> world \<Rightarrow> world" where
  "mkdir d w = w\<lparr>files := insert d (files w)\<rparr>"

text \<open>
  \<open>subprocess.run(cmd, cwd, stdout=PIPE, stderr=STDOUT, timeout, text=True, check=False)\<close>.
  A command that cannot be started raises OSError. Without a timeout the call waits for
  the exit, however long; with a timeout \<open>t\<close> a process still running after \<open>t\<close>
  seconds is killed and TimeoutExpired is raised. A non-zero exit status raises nothing.
  Under \<open>text=True\<close> the output of a process that has exited is decoded, whatever its
  exit status, and UnicodeDecodeError is raised when the output is not valid text; a
  process killed at the timeout raises TimeoutExpired with nothing decoded.
\<close>

definition subprocess_run ::
  "env \<Rightarrow> string list \<Rightarrow> string \<Rightarrow> int option \<Rightarrow> (int \<times> string) prog" where
  "subprocess_run env cmd cwd timeout w =
     (let w1 = w\<lparr>spawned := spawned w @ [(cmd, cwd, timeout)]\<rparr> in
      case os_spawn env cmd cwd (files w) (clock w) of
        None \<Rightarrow> (Inl OSError, w1)
      | Some p \<Rightarrow>
          (case timeout of
             None \<Rightarrow>
               (case lifetime p of
                  None \<Rightarrow> (Inl Hang, w1)
                | Some d \<Rightarrow>
                    ((if decodable p then Inr (returncode p, stdout p)
                      else Inl UnicodeDecodeError),
                     w1\<lparr>files := files_exit p, clock := clock w + d\<rparr>))
           | Some t \<Rightarrow>
               (case lifetime p of
                  None \<Rightarrow>
                    (Inl (TimeoutExpired (timeout_text env cmd t)),
                     w1\<lparr>files := files_killed p t, clock := clock w + max 0 (real_of_int t)\<rparr>)
                | Some d \<Rightarrow>
                    if d \<le> real_of_int t then
                      ((if decodable p then Inr (returncode p, stdout p)
                        else Inl UnicodeDecodeError),
                       w1\<lparr>files := files_exit p, clock := clock w + d\<rparr>)
                    else
                      (Inl (TimeoutExpired (timeout_text env cmd t)),
                       w1\<lparr>files := files_killed p t,
                          clock := clock w + max 0 (real_of_int t)\<rparr>))))"

subsection \<open>run\_cmd (identical in both scripts)\<close>

definition run_cmd ::
  "env \<Rightarrow> string list \<Rightarrow> string \<Rightarrow> int option \<Rightarrow> (int \<times> string) prog" where
  "run_cmd env cmd cwd timeout w =
     (case subprocess_run env cmd cwd timeout w of
        (Inr (rc, out), w') \<Rightarrow> (Inr (rc, out), w')
      | (Inl (TimeoutExpired e), w') \<Rightarrow> (Inr (124, ''TimeoutExpired: '' @ e), w')
      | (Inl x, w') \<Rightarrow> (Inl x, w'))"

subsection \<open>ensure\_built\<close>

text \<open>The scripts differ in the binaries they look for, passed here as \<open>names\<close>.\<close>

definition ensure_built :: "env \<Rightarrow> string list \<Rightarrow> unit prog" where
  "ensure_built env names w =
     (let need_build = list_ex (\<lambda>name. \<not> path_exists (joinp (BIN_DIR env) name) w) names in
      if need_build then
        (let w1 = say [Txt ''Building release binaries with cargo build --release ...''] w in
         case run_cmd env [''cargo'', ''build'', ''--release''] (PROJECT_ROOT env) None w1 of
           (Inl e, w2) \<Rightarrow> (Inl e, w2)
         | (Inr (code, out), w2) \<Rightarrow>
             (let w3 = say [Txt out] w2 in
              if code \<noteq> 0 then
                (Inl (SystemExit 1),
                 say [Txt ''Failed to build project. Please check the output above.''] w3)
              else (Inr (), w3)))
      else (Inr (), w))"

subsection \<open>generate\_instance\<close>

definition generator_cmd ::
  "env \<Rightarrow> int \<Rightarrow> int \<Rightarrow> real \<Rightarrow> real \<Rightarrow> int option \<Rightarrow> string \<Rightarrow> string list" where
  "generator_cmd env n1 n2 density_g density_h seed output_path =
     [joinp (BIN_DIR env) ''input-generator'',
      ''--n1'', str_int n1,
      ''--n2'', str_int n2,
      ''--density-g'', str_float env density_g,
      ''--density-h'', str_float env density_h,
      ''--noise'',
      ''--output'', output_path]
     @ (case seed of None \<Rightarrow> [] | Some s \<Rightarrow> [''--seed'', str_int s])"

text \<open>\<open>print_cmd\<close> is True for plot\_runtime\_vs\_n2.py, which prints the command, and
  False for plot\_approx\_runtime\_vs\_n2.py; the rest is the same text.\<close>

definition generate_instance ::
  "env \<Rightarrow> bool \<Rightarrow> int \<Rightarrow> int \<Rightarrow> real \<Rightarrow> real \<Rightarrow> int option \<Rightarrow> string \<Rightarrow> unit prog" where
  "generate_instance env print_cmd n1 n2 density_g density_h seed output_path w =
     (let w0 = mkdir (parent output_path) w;
          cmd = generator_cmd env n1 n2 density_g density_h seed output_path;
          w1 = (if print_cmd then say [Lst cmd] w0 else w0) in
      case run_cmd env cmd (PROJECT_ROOT env) None w1 of
        (Inl e, w2) \<Rightarrow> (Inl e, w2)
      | (Inr (code, out), w2) \<Rightarrow>
          (let w3 = say [Txt ''[gen n1='', Num n1, Txt '', n2='', Num n2, Txt ''] exit='', Num code] w2 in
           if code \<noteq> 0 then
             (Inl (RuntimeError (''Failed to generate instance: '' @ output_path)),
              say [Txt out] w3)
           else (Inr (), say [Head10 out] w3)))"

subsection \<open>time\_solver\_exact and time\_solver\_approx\<close>

definition exact_cmd :: "env \<Rightarrow> string \<Rightarrow> int \<Rightarrow> string list" where
  "exact_cmd env instance_path k =
     [joinp (BIN_DIR env) ''exact-solver'', ''--input'', instance_path, ''--k'', str_int k]"

definition time_solver_exact :: "env \<Rightarrow> string \<Rightarrow> int \<Rightarrow> int \<Rightarrow> real option prog" where
  "time_solver_exact env instance_path k timeout_seconds w =
     (let cmd = exact_cmd env instance_path k;
          start = clock w in
      case run_cmd env cmd (PROJECT_ROOT env) (Some timeout_seconds) w of
        (Inl e, w1) \<Rightarrow> (Inl e, w1)
      | (Inr (code, out), w1) \<Rightarrow>
          (let elapsed = clock w1 - start in
           case stem_part instance_path 1 of
             Inl e \<Rightarrow> (Inl e, w1)
           | Inr label \<Rightarrow>
               (let w2 = say [Txt ''[exact] n1='', Txt label, Txt '', exit='', Num code,
                              Txt '', time='', Flt6 elapsed, Txt ''s''] w1 in
                if code \<noteq> 0 then (Inr None, say [Txt out] w2)
                else (Inr (Some elapsed), w2))))"

text \<open>The binary is \<open>approx-solver\<close> and the label \<open>n1\<close>, part 1 of the stem, in
  plot\_runtime\_vs\_n2.py; \<open>approx_solver\<close>, \<open>n2\<close> and part 2 in the other script.\<close>

definition approx_cmd :: "env \<Rightarrow> string \<Rightarrow> string \<Rightarrow> int \<Rightarrow> int \<Rightarrow> string list" where
  "approx_cmd env binary instance_path k trials_multiplier =
     [joinp (BIN_DIR env) binary, ''--input'', instance_path, ''--k'', str_int k,
      ''--trials-multiplier'', str_int trials_multiplier]"

definition time_solver_approx_gen ::
  "env \<Rightarrow> string \<Rightarrow> string \<Rightarrow> nat \<Rightarrow> string \<Rightarrow> int \<Rightarrow> int \<Rightarrow> int \<Rightarrow> real option prog" where
  "time_solver_approx_gen env binary tag part instance_path k trials_multiplier timeout_seconds w =
     (let cmd = approx_cmd env binary instance_path k trials_multiplier;
          start = clock w in
      case run_cmd env cmd (PROJECT_ROOT env) (Some timeout_seconds) w of
        (Inl e, w1) \<Rightarrow> (Inl e, w1)
      | (Inr (code, out), w1) \<Rightarrow>
          (let elapsed = clock w1 - start in
           case stem_part instance_path part of
             Inl e \<Rightarrow> (Inl e, w1)
           | Inr label \<Rightarrow>
               (let w2 = say [Txt ''[approx] '', Txt tag, Txt ''='', Txt label, Txt '', exit='',
                              Num code, Txt '', time='', Flt6 elapsed, Txt ''s''] w1 in
                if code \<noteq> 0 then (Inr None, say [Txt out] w2)
                else (Inr (Some elapsed), w2))))"

text \<open>plot\_runtime\_vs\_n2.py\<close>

definition time_solver_approx :: "env \<Rightarrow> string \<Rightarrow> int \<Rightarrow> int \<Rightarrow> int \<Rightarrow> real option prog" where
  "time_solver_approx env = time_solver_approx_gen env ''approx-solver'' ''n1'' 1"

text \<open>plot\_approx\_runtime\_vs\_n2.py\<close>

definition time_solver_approx2 :: "env \<Rightarrow> string \<Rightarrow> int \<Rightarrow> int \<Rightarrow> int \<Rightarrow> real option prog" where
  "time_solver_approx2 env = time_solver_approx_gen env ''approx_solver'' ''n2'' 2"

subsection \<open>plot\_runtime\<close>

text \<open>The masking loop: \<open>mask_vals\<close> of plot\_runtime\_vs\_n2.py, and the same loop written
  inline in plot\_approx\_runtime\_vs\_n2.py.\<close>

fun mask_loop :: "(int \<times> real option) list \<Rightarrow> int list \<Rightarrow> real list \<Rightarrow> int list \<times> real list" where
  "mask_loop [] mx my = (mx, my)"
| "mask_loop ((x, y) # ps) mx my =
     (case y of
        None \<Rightarrow> mask_loop ps mx my
      | Some t \<Rightarrow> if 0 < t then mask_loop ps (mx @ [x]) (my @ [t]) else mask_loop ps mx my)"

definition mask_vals :: "int list \<Rightarrow> real option list \<Rightarrow> int list \<times> real list" where
  "mask_vals xs ys = mask_loop (zip xs ys) [] []"

definition savefig :: "string \<Rightarrow> figure \<Rightarrow> world \<Rightarrow> world" where
  "savefig output_path fig w =
     w\<lparr>saved := saved w @ [(output_path, fig)], files := insert output_path (files w)\<rparr>"

text \<open>plot\_runtime\_vs\_n2.py: two series, always a log scale.\<close>

definition plot_runtime ::
  "int list \<Rightarrow> real option list \<Rightarrow> real option list \<Rightarrow> int \<Rightarrow> int \<Rightarrow> string \<Rightarrow> unit prog" where
  "plot_runtime n1_values exact_times approx_times n2 k output_path w =
     (let (x_exact, y_exact) = mask_vals n1_values exact_times;
          (x_approx, y_approx) = mask_vals n1_values approx_times;
          s1 = (if x_exact \<noteq> [] then [(''Exact'', x_exact, y_exact)] else []);
          s2 = (if x_approx \<noteq> [] then [(''Approximation'', x_approx, y_approx)] else []);
          fig = \<lparr>series = s1 @ s2, log_y = True\<rparr>;
          w1 = mkdir (parent output_path) w;
          w2 = savefig output_path fig w1
      in (Inr (), say [Txt ''Saved figure to: '', Txt output_path] w2))"

text \<open>plot\_approx\_runtime\_vs\_n2.py: one series, the log scale optional.\<close>

definition plot_runtime2 ::
  "int list \<Rightarrow> real option list \<Rightarrow> int \<Rightarrow> int \<Rightarrow> string \<Rightarrow> bool \<Rightarrow> unit prog" where
  "plot_runtime2 n2_values approx_times n1 k output_path log_scale w =
     (let (xs, ys) = mask_vals n2_values approx_times;
          s = (if xs \<noteq> [] then [(''Approximation'', xs, ys)] else []);
          fig = \<lparr>series = s, log_y = log_scale\<rparr>;
          w1 = mkdir (parent output_path) w;
          w2 = savefig output_path fig w1
      in (Inr (), say [Txt ''Saved figure to: '', Txt output_path] w2))"

subsection \<open>Command-line arguments\<close>

text \<open>The result of \<open>parse_args\<close>: the options both scripts share, then those of
  plot\_runtime\_vs\_n2.py (\<open>args\<close>) and of plot\_approx\_runtime\_vs\_n2.py (\<open>args2\<close>).\<close>

record common_args =
  args_k :: int
  args_density_g :: real
  args_density_h :: real
  args_seed :: int
  args_trials_multiplier :: int
  args_timeout_seconds :: int
  args_output :: string

record args = common_args +
  args_n2 :: int
  args_n1_start :: int
  args_n1_end :: int
  args_n1_step :: int

record args2 = common_args +
  args_n1 :: int
  args_n2_start :: int
  args_n2_end :: int
  args_n2_step :: int
  args_no_log_scale :: bool

subsection \<open>The loop body: instance provisioning\<close>

definition instance_path :: "env \<Rightarrow> int \<Rightarrow> int \<Rightarrow> string" where
  "instance_path env n1 n2 =
     joinp (GEN_DIR env) (''generated_'' @ str_int n1 @ ''_'' @ str_int n2 @ ''.txt'')"

text \<open>The first statement of the loop body of \<open>main\<close>, the same in both scripts:
  generate the instance unless its path exists.\<close>

definition provision ::
  "env \<Rightarrow> bool \<Rightarrow> 'a common_args_scheme \<Rightarrow> int \<Rightarrow> int \<Rightarrow> unit prog" where
  "provision env print_cmd a n1 n2 w =
     (let p = instance_path env n1 n2 in
      if \<not> path_exists p w then
        generate_instance env print_cmd n1 n2 (args_density_g a) (args_density_h a)
          (Some (args_seed a)) p
          (say [Txt ''Generating instance for n1='', Num n1, Txt '', n2='', Num n2, Txt '' ...''] w)
      else (Inr (), say [Txt ''Using existing instance: '', Txt p] w))"

subsection \<open>main of plot\_runtime\_vs\_n2.py\<close>

record sweep_state =
  exact_times :: "real option list"
  approx_times :: "real option list"
  exact_failed :: bool

definition init_state :: sweep_state where
  "init_state = \<lparr>exact_times = [], approx_times = [], exact_failed = False\<rparr>"

text \<open>Benchmark exact, with early stop on first failure or timeout.\<close>

definition exact_step :: "env \<Rightarrow> args \<Rightarrow> int \<Rightarrow> sweep_state \<Rightarrow> sweep_state prog" where
  "exact_step env a n1 st w =
     (if \<not> exact_failed st then
        (case time_solver_exact env (instance_path env n1 (args_n2 a)) (args_k a)
                (args_timeout_seconds a) w of
           (Inl e, w1) \<Rightarrow> (Inl e, w1)
         | (Inr t_exact, w1) \<Rightarrow>
             (Inr (st\<lparr>exact_failed := (if t_exact = None then True else exact_failed st),
                      exact_times := exact_times st @ [t_exact]\<rparr>), w1))
      else
        (Inr (st\<lparr>exact_times := exact_times st @ [None]\<rparr>),
         say [Txt ''[exact] skipping for n1='', Num n1, Txt '' after previous failure/timeout''] w))"

text \<open>Benchmark approx.\<close>

definition approx_step :: "env \<Rightarrow> args \<Rightarrow> int \<Rightarrow> sweep_state \<Rightarrow> sweep_state prog" where
  "approx_step env a n1 st w =
     (case time_solver_approx env (instance_path env n1 (args_n2 a)) (args_k a)
             (args_trials_multiplier a) (args_timeout_seconds a) w of
        (Inl e, w1) \<Rightarrow> (Inl e, w1)
      | (Inr t_approx, w1) \<Rightarrow> (Inr (st\<lparr>approx_times := approx_times st @ [t_approx]\<rparr>), w1))"

definition sweep_point :: "env \<Rightarrow> args \<Rightarrow> int \<Rightarrow> sweep_state \<Rightarrow> sweep_state prog" where
  "sweep_point env a n1 st w =
     (case provision env True a n1 (args_n2 a) w of
        (Inl e, w1) \<Rightarrow> (Inl e, w1)
      | (Inr u, w1) \<Rightarrow>
          (case exact_step env a n1 st w1 of
             (Inl e, w2) \<Rightarrow> (Inl e, w2)
           | (Inr st1, w2) \<Rightarrow> approx_step env a n1 st1 w2))"

fun sweep :: "env \<Rightarrow> args \<Rightarrow> int list \<Rightarrow> sweep_state \<Rightarrow> sweep_state prog" where
  "sweep env a [] st w = (Inr st, w)"
| "sweep env a (n1 # rest) st w =
     (case sweep_point env a n1 st w of
        (Inl e, w1) \<Rightarrow> (Inl e, w1)
      | (Inr st1, w1) \<Rightarrow> sweep env a rest st1 w1)"

definition summary_line :: "int \<times> real option \<times> real option \<Rightarrow> frag list" where
  "summary_line r =
     (case r of (n1, te, ta) \<Rightarrow>
        [Txt ''n1='', Num n1, Txt '', exact='',
         (case te of Some t \<Rightarrow> Flt6 t | None \<Rightarrow> Txt ''infeasible/timeout/fail''),
         Txt '', approx='',
         (case ta of Some t \<Rightarrow> Flt6 t | None \<Rightarrow> Txt ''fail'')])"

definition say_all :: "frag list list \<Rightarrow> world \<Rightarrow> world" where
  "say_all ls w = w\<lparr>printed := printed w @ ls\<rparr>"

text \<open>\<open>main\<close> in three parts: up to \<open>ensure_built\<close>, the loop (\<open>sweep\<close>), and the
  summary and the plot.\<close>

definition startup :: "env \<Rightarrow> args \<Rightarrow> int list prog" where
  "startup env a w =
     (case sweep_values (args_n1_start a) (args_n1_end a) (args_n1_step a) of
        Inl e \<Rightarrow> (Inl e, w)
      | Inr n1_values \<Rightarrow>
          (let w1 = say [Txt ''Project root: '', Txt (PROJECT_ROOT env)] w;
               w2 = say [Txt ''Using fixed n2 (|VH|): '', Num (args_n2 a),
                         Txt '', varying n1 (|VG|): '', NumLst n1_values,
                         Txt '', k: '', Num (args_k a)] w1 in
           case ensure_built env [''exact-solver'', ''approx-solver'', ''input-generator''] w2 of
             (Inl e, w3) \<Rightarrow> (Inl e, w3)
           | (Inr u, w3) \<Rightarrow> (Inr n1_values, w3)))"

definition report :: "env \<Rightarrow> args \<Rightarrow> int list \<Rightarrow> sweep_state \<Rightarrow> unit prog" where
  "report env a n1_values st w =
     (let w1 = say [Txt [CHR 0x0A], Txt ''Summary (seconds):''] w;
          w2 = say_all (map summary_line
                 (zip n1_values (zip (exact_times st) (approx_times st)))) w1
      in plot_runtime n1_values (exact_times st) (approx_times st)
           (args_n2 a) (args_k a) (resolve env (args_output a)) w2)"

definition main :: "env \<Rightarrow> args \<Rightarrow> unit prog" where
  "main env a w =
     (case startup env a w of
        (Inl e, w1) \<Rightarrow> (Inl e, w1)
      | (Inr n1_values, w1) \<Rightarrow>
          (case sweep env a n1_values init_state w1 of
             (Inl e, w2) \<Rightarrow> (Inl e, w2)
           | (Inr st, w2) \<Rightarrow> report env a n1_values st w2))"

subsection \<open>main of plot\_approx\_runtime\_vs\_n2.py\<close>

definition sweep_point2 :: "env \<Rightarrow> args2 \<Rightarrow> int \<Rightarrow> real option list \<Rightarrow> real option list prog" where
  "sweep_point2 env a n2 atimes w =
     (case provision env False a (args_n1 a) n2 w of
        (Inl e, w1) \<Rightarrow> (Inl e, w1)
      | (Inr u, w1) \<Rightarrow>
          (case time_solver_approx2 env (instance_path env (args_n1 a) n2) (args_k a)
                  (args_trials_multiplier a) (args_timeout_seconds a) w1 of
             (Inl e, w2) \<Rightarrow> (Inl e, w2)
           | (Inr t_approx, w2) \<Rightarrow> (Inr (atimes @ [t_approx]), w2)))"

fun sweep2 :: "env \<Rightarrow> args2 \<Rightarrow> int list \<Rightarrow> real option list \<Rightarrow> real option list prog" where
  "sweep2 env a [] atimes w = (Inr atimes, w)"
| "sweep2 env a (n2 # rest) atimes w =
     (case sweep_point2 env a n2 atimes w of
        (Inl e, w1) \<Rightarrow> (Inl e, w1)
      | (Inr atimes1, w1) \<Rightarrow> sweep2 env a rest atimes1 w1)"

definition summary_line2 :: "int \<times> real option \<Rightarrow> frag list" where
  "summary_line2 r =
     (case r of (n2, ta) \<Rightarrow>
        [Txt ''n2='', Num n2, Txt '', approx='',
         (case ta of Some t \<Rightarrow> Flt6 t | None \<Rightarrow> Txt ''fail/timeout'')])"

definition startup2 :: "env \<Rightarrow> args2 \<Rightarrow> int list prog" where
  "startup2 env a w =
     (case sweep_values (args_n2_start a) (args_n2_end a) (args_n2_step a) of
        Inl e \<Rightarrow> (Inl e, w)
      | Inr n2_values \<Rightarrow>
          (let w1 = say [Txt ''Project root: '', Txt (PROJECT_ROOT env)] w;
               w2 = say [Txt ''Fixed n1 (|VG|): '', Num (args_n1 a),
                         Txt '', varying n2 (|VH|): '', NumLst n2_values,
                         Txt '', k: '', Num (args_k a)] w1 in
           case ensure_built env [''approx_solver'', ''input-generator''] w2 of
             (Inl e, w3) \<Rightarrow> (Inl e, w3)
           | (Inr u, w3) \<Rightarrow> (Inr n2_values, w3)))"

definition report2 :: "env \<Rightarrow> args2 \<Rightarrow> int list \<Rightarrow> real option list \<Rightarrow> unit prog" where
  "report2 env a n2_values atimes w =
     (let log_scale = (\<not> args_no_log_scale a);
          w1 = say [Txt [CHR 0x0A], Txt ''Summary (seconds):''] w;
          w2 = say_all (map summary_line2 (zip n2_values atimes)) w1
      in plot_runtime2 n2_values atimes (args_n1 a) (args_k a)
           (resolve env (args_output a)) log_scale w2)"

definition main2 :: "env \<Rightarrow> args2 \<Rightarrow> unit prog" where
  "main2 env a w =
     (case startup2 env a w of
        (Inl e, w1) \<Rightarrow> (Inl e, w1)
      | (Inr n2_values, w1) \<Rightarrow>
          (case sweep2 env a n2_values [] w1 of
             (Inl e, w2) \<Rightarrow> (Inl e, w2)
           | (Inr atimes, w2) \<Rightarrow> report2 env a n2_values atimes w2))"


subsection \<open>Reading a run, and concrete scenarios\<close>

text \<open>Whether a process exits by itself within \<open>t\<close> seconds.\<close>

definition exits_within :: "proc \<Rightarrow> int \<Rightarrow> bool" where
  "exits_within p t = (case lifetime p of None \<Rightarrow> False | Some d \<Rightarrow> d \<le> real_of_int t)"

text \<open>An empty world; a process that leaves the file system as it is and exits with
  status \<open>rc\<close> after \<open>d\<close> seconds, having written valid text, one that exits
  likewise but has written bytes that are no valid text, and one that never exits; an
  environment in which every command starts the same process, or none.\<close>

definition world0 :: world where
  "world0 = \<lparr>files = {}, clock = 0, spawned = [], printed = [], saved = []\<rparr>"

definition proc_exit :: "int \<Rightarrow> string \<Rightarrow> real \<Rightarrow> string set \<Rightarrow> proc" where
  "proc_exit rc out d fs =
     \<lparr>lifetime = Some d, returncode = rc, stdout = out, decodable = True,
      files_exit = fs, files_killed = (\<lambda>t. fs)\<rparr>"


definition proc_hang :: "string set \<Rightarrow> proc" where
  "proc_hang fs =
     \<lparr>lifetime = None, returncode = 0, stdout = [], decodable = True,
      files_exit = fs, files_killed = (\<lambda>t. fs)\<rparr>"

definition env_with :: "(string list \<Rightarrow> string set \<Rightarrow> proc option) \<Rightarrow> env" where
  "env_with f =
     \<lparr>PROJECT_ROOT = ''/repo'', os_spawn = (\<lambda>cmd cwd fs now. f cmd fs),
      str_float = (\<lambda>x. ''0.5''), timeout_text = (\<lambda>cmd t. ''timed out''),
      resolve = (\<lambda>s. s)\<rparr>"

definition env_exit :: "int \<Rightarrow> real \<Rightarrow> env" where
  "env_exit rc d = env_with (\<lambda>cmd fs. Some (proc_exit rc ''done'' d fs))"


definition env_hang :: env where
  "env_hang = env_with (\<lambda>cmd fs. Some (proc_hang fs))"


text \<open>A point of a series can be plotted when its elapsed time is present and strictly
  positive.\<close>

definition plottable :: "int \<times> real option \<Rightarrow> bool" where
  "plottable p = (case snd p of None \<Rightarrow> False | Some t \<Rightarrow> 0 < t)"

text \<open>An environment in which every command exits with status 0 after one second, having
  written the file named by its twelfth word when there is one (the \<open>--output\<close> argument
  of the generator); and the arguments of the usage examples of the two scripts.\<close>

definition writes_output :: "string list \<Rightarrow> string set \<Rightarrow> string set" where
  "writes_output cmd fs = (if 11 < length cmd then insert (cmd ! 11) fs else fs)"

definition env_ok :: env where
  "env_ok = env_with (\<lambda>cmd fs. Some (proc_exit 0 ''done'' 1 (writes_output cmd fs)))"

definition args0 :: args where
  "args0 =
     \<lparr>args_k = 2, args_density_g = 0.35, args_density_h = 0.2, args_seed = 12345,
      args_trials_multiplier = 10, args_timeout_seconds = 30, args_output = ''out.png'',
      args_n2 = 25, args_n1_start = 2, args_n1_end = 5, args_n1_step = 1\<rparr>"

definition args20 :: args2 where
  "args20 =
     \<lparr>args_k = 3, args_density_g = 0.35, args_density_h = 0.2, args_seed = 12345,
      args_trials_multiplier = 10, args_timeout_seconds = 60, args_output = ''out2.png'',
      args_n1 = 8, args_n2_start = 10, args_n2_end = 20, args_n2_step = 5,
      args_no_log_scale = False\<rparr>"

text \<open>The processes started while the loop of \<open>main\<close> is at index \<open>j\<close> of the sweep:
  those that the first \<open>j + 1\<close> iterations start, less those of the first \<open>j\<close>. The
  calls of a binary among them are those whose command begins with its path.\<close>

definition point_spawns ::
  "env \<Rightarrow> args \<Rightarrow> int list \<Rightarrow> world \<Rightarrow> nat \<Rightarrow> (string list \<times> string \<times> int option) list" where
  "point_spawns env a ns w j =
     drop (length (spawned (snd (sweep env a (take j ns) init_state w))))
       (spawned (snd (sweep env a (take (Suc j) ns) init_state w)))"

definition point_spawns2 ::
  "env \<Rightarrow> args2 \<Rightarrow> int list \<Rightarrow> world \<Rightarrow> nat \<Rightarrow> (string list \<times> string \<times> int option) list" where
  "point_spawns2 env a ns w j =
     drop (length (spawned (snd (sweep2 env a (take j ns) [] w))))
       (spawned (snd (sweep2 env a (take (Suc j) ns) [] w)))"

definition calls_of ::
  "env \<Rightarrow> string \<Rightarrow> (string list \<times> string \<times> int option) list
     \<Rightarrow> (string list \<times> string \<times> int option) list" where
  "calls_of env binary tr = filter (\<lambda>e. take 1 (fst e) = [joinp (BIN_DIR env) binary]) tr"

text \<open>A world in which every path exists, so that nothing is built or generated; and an
  environment whose exact solver needs twenty seconds for each second that has passed
  on the clock (plus twenty), while every other command exits with status 0 after one
  second. With a timeout of thirty seconds the exact solver succeeds once and then times
  out.\<close>

definition world_full :: world where
  "world_full = \<lparr>files = UNIV, clock = 0, spawned = [], printed = [], saved = []\<rparr>"

definition env_growing :: env where
  "env_growing =
     \<lparr>PROJECT_ROOT = ''/repo'',
      os_spawn = (\<lambda>cmd cwd fs now.
        Some (if take 1 cmd = [''/repo/target/release/exact-solver'']
              then proc_exit 0 ''solved'' (20 * (now + 1)) fs
              else proc_exit 0 ''done'' 1 fs)),
      str_float = (\<lambda>x. ''0.5''), timeout_text = (\<lambda>cmd t. ''timed out''),
      resolve = (\<lambda>s. s)\<rparr>"

text \<open>The time budget of a run: a process started with a solver binary carries the
  timeout \<open>tmo\<close>; any other process is the build or the generator and carries none.
  \<open>only_starts P w w'\<close>: from \<open>w\<close> to \<open>w'\<close> processes were only added to the record, and
  each added one satisfies \<open>P\<close>.\<close>

definition is_solver_cmd :: "env \<Rightarrow> string list \<Rightarrow> bool" where
  "is_solver_cmd env cmd \<longleftrightarrow>
     take 1 cmd = [joinp (BIN_DIR env) ''exact-solver'']
     \<or> take 1 cmd = [joinp (BIN_DIR env) ''approx-solver'']
     \<or> take 1 cmd = [joinp (BIN_DIR env) ''approx_solver'']"

definition budget_ok :: "env \<Rightarrow> int \<Rightarrow> string list \<times> string \<times> int option \<Rightarrow> bool" where
  "budget_ok env tmo e =
     (if is_solver_cmd env (fst e) then snd (snd e) = Some tmo
      else (fst e = [''cargo'', ''build'', ''--release'']
            \<or> take 1 (fst e) = [joinp (BIN_DIR env) ''input-generator''])
           \<and> snd (snd e) = None)"

definition only_starts ::
  "(string list \<times> string \<times> int option \<Rightarrow> bool) \<Rightarrow> world \<Rightarrow> world \<Rightarrow> bool" where
  "only_starts P w w' \<longleftrightarrow>
     take (length (spawned w)) (spawned w') = spawned w
     \<and> list_all P (drop (length (spawned w)) (spawned w'))"





section \<open>Properties\<close>

subsection \<open>The sweep of sizes\<close>

lemma div_le_0_if_less: "0 < (b::int) \<Longrightarrow> a < b \<Longrightarrow> a div b \<le> 0"
  by (metis div_nonpos_pos_le0 div_pos_pos_trivial less_le_not_le linorder_not_less)

lemma div_add_step: "0 < (b::int) \<Longrightarrow> (a + b) div b = a div b + 1"
  by simp

lemma range_up_closed:
  "0 < step \<Longrightarrow> range_up i stop step =
     map (\<lambda>m. i + int m * step) [0..<nat ((stop - i + step - 1) div step)]"
proof (induction i stop step rule: range_up.induct)
  case (1 i stop step)
  show ?case
  proof (cases "i < stop")
    case False
    with 1(2) have "(stop - i + step - 1) div step \<le> 0"
      by (intro div_le_0_if_less) auto
    with False show ?thesis by (simp add: range_up.simps)
  next
    case True
    define n where "n = nat ((stop - (i + step) + step - 1) div step)"
    have "(stop - i + step - 1) div step = ((stop - (i + step) + step - 1) + step) div step"
      by (simp add: algebra_simps)
    also have "\<dots> = (stop - (i + step) + step - 1) div step + 1"
      using 1(2) by (rule div_add_step)
    finally have d: "(stop - i + step - 1) div step = (stop - (i + step) + step - 1) div step + 1" .
    have nn: "0 \<le> (stop - (i + step) + step - 1) div step"
      using True 1(2) by (simp add: pos_imp_zdiv_nonneg_iff)
    have e: "nat ((stop - i + step - 1) div step) = Suc n"
      unfolding n_def d using nn by simp
    have "range_up i stop step = i # range_up (i + step) stop step"
      using True 1(2) by (simp add: range_up.simps)
    also have "\<dots> = i # map (\<lambda>m. (i + step) + int m * step) [0..<n]"
      using 1(1) True 1(2) unfolding n_def by simp
    also have "\<dots> = map (\<lambda>m. i + int m * step) [0..<Suc n]"
      by (simp add: upt_conv_Cons map_Suc_upt[symmetric] algebra_simps del: upt_Suc)
    finally show ?thesis unfolding e .
  qed
qed

lemma ceil_div: 
  assumes b: "0 < (b::int)"
  shows "\<lceil>real_of_int a / real_of_int b\<rceil> = (a + b - 1) div b"
proof (rule ceiling_unique)
  define q where "q = (a + b - 1) div b"
  define r where "r = (a + b - 1) mod b"
  have m: "a + b - 1 = q * b + r" unfolding q_def r_def by simp
  have r0: "0 \<le> r" and r1: "r < b" using b unfolding r_def by simp_all
  have "(q - 1) * b = q * b - b" by (simp add: left_diff_distrib)
  then have lo: "(q - 1) * b < a" using m r0 by linarith
  have hi: "a \<le> q * b" using m r0 r1 by linarith
  have rb: "0 < real_of_int b" using b by simp
  have "real_of_int ((q - 1) * b) < real_of_int a" using lo by (simp only: of_int_less_iff)
  then have "(real_of_int q - 1) * real_of_int b < real_of_int a" by simp
  then have "real_of_int q - 1 < real_of_int a / real_of_int b"
    using rb by (simp only: pos_less_divide_eq)
  then show "real_of_int ((a + b - 1) div b) - 1 < real_of_int a / real_of_int b"
    unfolding q_def .
  have "real_of_int a \<le> real_of_int (q * b)" using hi by (simp only: of_int_le_iff)
  then have "real_of_int a \<le> real_of_int q * real_of_int b" by simp
  then have "real_of_int a / real_of_int b \<le> real_of_int q"
    using rb by (simp only: pos_divide_le_eq)
  then show "real_of_int a / real_of_int b \<le> real_of_int ((a + b - 1) div b)"
    unfolding q_def .
qed


lemma sorted_wrt_affine:
  "0 < step \<Longrightarrow> sorted_wrt (<) (map (\<lambda>m. i + int m * step) [0..<n])"
  by (simp add: sorted_wrt_map sorted_wrt_iff_nth_less)

lemma sweep_values_scenario: "sweep_values 2 5 1 = Inr [2, 3, 4, 5]"
  by (simp add: sweep_values_def py_range_def range_up.simps)

lemma sweep_values_empty: "0 < step \<Longrightarrow> end < start \<Longrightarrow> sweep_values start end step = Inr []"
  by (simp add: sweep_values_def py_range_def range_up.simps)

text \<open>
  C3. For a positive step and a start that is at most the inclusive end, the sweep is
  strictly increasing and free of duplicates, has \<open>\<lceil>(end - start + 1) / step\<rceil>\<close>
  elements, begins with start, and ends with the largest \<open>start + m * step\<close> that is
  at most \<open>end\<close>.
\<close>

theorem sweep_values_shape:
  assumes step: "0 < step" and le: "start \<le> end"
  shows "\<exists>xs. sweep_values start end step = Inr xs \<and> xs \<noteq> []
           \<and> sorted_wrt (<) xs \<and> distinct xs
           \<and> int (length xs) = \<lceil>real_of_int (end - start + 1) / real_of_int step\<rceil>
           \<and> hd xs = start
           \<and> last xs \<le> end
           \<and> (\<exists>m. last xs = start + int m * step)
           \<and> (\<forall>m. start + int m * step \<le> end \<longrightarrow> start + int m * step \<le> last xs)"
proof -
  define d where "d = (end - start) div step"
  define xs where "xs = map (\<lambda>m. start + int m * step) [0..<Suc (nat d)]"
  have d0: "0 \<le> d" unfolding d_def using step le by (simp add: pos_imp_zdiv_nonneg_iff)
  have q: "(end + 1 - start + step - 1) div step = d + 1"
  proof -
    have "(end + 1 - start + step - 1) div step = ((end - start) + step) div step"
      by (simp add: algebra_simps)
    also have "\<dots> = d + 1" unfolding d_def using step by (rule div_add_step)
    finally show ?thesis .
  qed
  have n: "nat ((end + 1 - start + step - 1) div step) = Suc (nat d)"
    unfolding q using d0 by simp
  have "range_up start (end + 1) step = xs"
    unfolding xs_def range_up_closed[OF step] n ..
  then have run: "sweep_values start end step = Inr xs"
    using step unfolding sweep_values_def py_range_def by simp
  have ne: "xs \<noteq> []" unfolding xs_def by simp
  have srt: "sorted_wrt (<) xs" unfolding xs_def using step by (rule sorted_wrt_affine)
  have dist: "distinct xs" using srt by (simp add: strict_sorted_iff)
  have len: "int (length xs) = \<lceil>real_of_int (end - start + 1) / real_of_int step\<rceil>"
  proof -
    have "\<lceil>real_of_int (end - start + 1) / real_of_int step\<rceil> = (end - start + 1 + step - 1) div step"
      using step by (rule ceil_div)
    also have "\<dots> = d + 1" using q by (simp add: algebra_simps)
    finally show ?thesis unfolding xs_def using d0 by simp
  qed
  have hd: "hd xs = start" unfolding xs_def by (simp add: upt_conv_Cons del: upt_Suc)
  have lst: "last xs = start + d * step" unfolding xs_def using d0 by simp
  have m: "end - start = d * step + (end - start) mod step" unfolding d_def by simp
  have r0: "0 \<le> (end - start) mod step" and r1: "(end - start) mod step < step"
    using step by simp_all
  have le_end: "last xs \<le> end" unfolding lst using m r0 by linarith
  have reach: "\<exists>m. last xs = start + int m * step"
    unfolding lst using d0 by (intro exI[of _ "nat d"]) simp
  have best: "start + int k * step \<le> last xs" if "start + int k * step \<le> end" for k
  proof -
    have "int k * step < (d + 1) * step"
    proof -
      have "(d + 1) * step = d * step + step" by (simp add: algebra_simps)
      then show ?thesis using that m r1 by linarith
    qed
    then have "int k < d + 1" using step by (simp add: mult_less_cancel_right)
    then have "int k \<le> d" by simp
    then have "int k * step \<le> d * step" using step by (simp add: mult_right_mono)
    then show ?thesis unfolding lst by simp
  qed
  show ?thesis
    using run ne srt dist len hd le_end reach best by blast
qed

theorem sweep_values_shape_witness:
  "\<exists>xs. sweep_values 2 11 4 = Inr xs \<and> xs \<noteq> []
      \<and> sorted_wrt (<) xs \<and> distinct xs
      \<and> int (length xs) = \<lceil>real_of_int (11 - 2 + 1) / real_of_int 4\<rceil>
      \<and> hd xs = 2
      \<and> last xs \<le> 11
      \<and> (\<exists>m. last xs = 2 + int m * 4)
      \<and> (\<forall>m. 2 + int m * 4 \<le> 11 \<longrightarrow> 2 + int m * 4 \<le> last xs)"
  using sweep_values_shape [of 4 2 11] by simp

subsection \<open>Strings and paths\<close>


lemma digit_char_mem: "d < 10 \<Longrightarrow> digit_char d \<in> set ''0123456789''"
  unfolding digit_char_def by (rule nth_mem) simp

lemma str_nat_chars: "set (str_nat n) \<subseteq> set ''0123456789''"
proof (induction n rule: str_nat.induct)
  case (1 n)
  show ?case
  proof (cases "n < 10")
    case True
    then show ?thesis using digit_char_mem[of n] by (subst str_nat.simps) simp
  next
    case False
    have "n mod 10 < 10" by simp
    then have "digit_char (n mod 10) \<in> set ''0123456789''" by (rule digit_char_mem)
    then show ?thesis using False 1 by (subst str_nat.simps) simp
  qed
qed

lemma split_on_nonempty: "split_on sep s \<noteq> []"
  by (induction s) auto

lemma split_on_no_sep: "sep \<notin> set s \<Longrightarrow> split_on sep s = [s]"
  by (induction s) auto

lemma split_on_append: "sep \<notin> set s \<Longrightarrow> split_on sep (s @ sep # r) = s # split_on sep r"
  by (induction s) auto


lemma str_nat_no_sep: "c \<in> set (str_nat n) \<Longrightarrow> c \<noteq> CHR ''_'' \<and> c \<noteq> CHR ''.'' \<and> c \<noteq> CHR ''/''"
proof -
  assume "c \<in> set (str_nat n)"
  then have "c \<in> set ''0123456789''" using str_nat_chars by blast
  then show ?thesis by auto
qed

lemma str_int_no_sep:
  "CHR ''_'' \<notin> set (str_int i)" "CHR ''.'' \<notin> set (str_int i)" "CHR ''/'' \<notin> set (str_int i)"
  unfolding str_int_def using str_nat_no_sep[of _ "nat i"] str_nat_no_sep[of _ "nat (- i)"]
  by (cases "i < 0"; simp; blast)+


lemma tl_split_on_sep: "tl (split_on sep (d @ sep # f)) \<noteq> []"
  by (induction d) (simp_all add: split_on_nonempty)

lemma last_split_on: "last (split_on sep (d @ sep # f)) = last (split_on sep f)"
proof (induction d)
  case Nil
  then show ?case by (simp add: split_on_nonempty)
next
  case (Cons c d)
  show ?case
  proof (cases "c = sep")
    case True
    then show ?thesis using Cons by (simp add: split_on_nonempty)
  next
    case False
    then show ?thesis using Cons tl_split_on_sep[of sep d f]
      by (simp add: last_tl)
  qed
qed

lemma name_of_joinp: "CHR ''/'' \<notin> set f \<Longrightarrow> name_of (joinp d f) = f"
proof -
  assume f: "CHR ''/'' \<notin> set f"
  have s: "split_on (CHR ''/'') f = [f]" using f by (rule split_on_no_sep)
  have a: "last (split_on (CHR ''/'') (d @ CHR ''/'' # f)) = f"
    unfolding last_split_on s by simp
  have b: "last (split_on (CHR ''/'') ([] @ CHR ''/'' # f)) = f"
    unfolding last_split_on s by simp
  show ?thesis
  proof (cases "d = ''/''")
    case True
    then show ?thesis using b unfolding name_of_def joinp_def by simp
  next
    case False
    then show ?thesis using a unfolding name_of_def joinp_def by simp
  qed
qed


lemma stem_txt:
  assumes "CHR ''/'' \<notin> set s" "CHR ''.'' \<notin> set s" "s \<noteq> []"
  shows "stem (joinp d (s @ ''.txt'')) = s"
proof -
  have nm: "name_of (joinp d (s @ ''.txt'')) = s @ ''.txt''"
    using assms(1) by (intro name_of_joinp) simp
  have tw: "takeWhile (\<lambda>c. c \<noteq> CHR ''.'') (rev (s @ ''.txt'')) = ''txt''"
    by simp
  have len: "0 < length s" using assms(3) by simp
  show ?thesis unfolding stem_def nm Let_def tw using len by simp
qed


lemma stem_instance_path:
  "stem (instance_path env n1 n2) = ''generated_'' @ str_int n1 @ ''_'' @ str_int n2"
proof -
  let ?s = "''generated_'' @ str_int n1 @ ''_'' @ str_int n2"
  have 1: "CHR ''/'' \<notin> set ?s" using str_int_no_sep(3)[of n1] str_int_no_sep(3)[of n2] by simp
  have 2: "CHR ''.'' \<notin> set ?s" using str_int_no_sep(2)[of n1] str_int_no_sep(2)[of n2] by simp
  have 3: "?s \<noteq> []" by simp
  have "stem (joinp (GEN_DIR env) (?s @ ''.txt'')) = ?s" using 1 2 3 by (rule stem_txt)
  then show ?thesis unfolding instance_path_def by (simp only: append_assoc)
qed

lemma split_stem_instance_path:
  "split_on (CHR ''_'') (stem (instance_path env n1 n2)) = [''generated'', str_int n1, str_int n2]"
proof -
  have "split_on (CHR ''_'') (''generated'' @ CHR ''_'' # (str_int n1 @ CHR ''_'' # str_int n2))
        = ''generated'' # split_on (CHR ''_'') (str_int n1 @ CHR ''_'' # str_int n2)"
    by (rule split_on_append) simp
  also have "split_on (CHR ''_'') (str_int n1 @ CHR ''_'' # str_int n2)
        = str_int n1 # split_on (CHR ''_'') (str_int n2)"
    by (rule split_on_append) (rule str_int_no_sep)
  also have "split_on (CHR ''_'') (str_int n2) = [str_int n2]"
    by (rule split_on_no_sep) (rule str_int_no_sep)
  finally have e: "split_on (CHR ''_'') (''generated'' @ CHR ''_'' # (str_int n1 @ CHR ''_'' # str_int n2))
        = [''generated'', str_int n1, str_int n2]" .
  have "''generated_'' @ str_int n1 @ ''_'' @ str_int n2
        = ''generated'' @ CHR ''_'' # (str_int n1 @ CHR ''_'' # str_int n2)" by simp
  then show ?thesis unfolding stem_instance_path using e by (simp only:)
qed

lemma stem_part_instance_path:
  "stem_part (instance_path env n1 n2) (Suc 0) = Inr (str_int n1)"
  "stem_part (instance_path env n1 n2) 2 = Inr (str_int n2)"
  unfolding stem_part_def split_stem_instance_path by (simp_all add: numeral_2_eq_2)

subsection \<open>run\_cmd\<close>

lemma run_cmd_spawned:
  "spawned (snd (run_cmd env cmd cwd timeout w)) = spawned w @ [(cmd, cwd, timeout)]"
  unfolding run_cmd_def subprocess_run_def
  by (simp add: Let_def split: option.splits)


lemma run_cmd_printed: "printed (snd (run_cmd env cmd cwd timeout w)) = printed w"
  unfolding run_cmd_def subprocess_run_def
  by (simp add: Let_def split: option.splits)

lemma run_cmd_timeout_result:
  assumes "os_spawn env cmd cwd (files w) (clock w) = Some p"
  shows "fst (run_cmd env cmd cwd (Some t) w) =
           (if exits_within p t
            then (if decodable p then Inr (returncode p, stdout p) else Inl UnicodeDecodeError)
            else Inr (124, ''TimeoutExpired: '' @ timeout_text env cmd t))"
  using assms unfolding run_cmd_def subprocess_run_def exits_within_def
  by (simp add: Let_def split: option.splits)

lemma run_cmd_no_timeout_result:
  assumes "os_spawn env cmd cwd (files w) (clock w) = Some p"
  shows "fst (run_cmd env cmd cwd None w) =
           (case lifetime p of
              None \<Rightarrow> Inl Hang
            | Some d \<Rightarrow>
                if decodable p then Inr (returncode p, stdout p) else Inl UnicodeDecodeError)"
  using assms unfolding run_cmd_def subprocess_run_def
  by (simp add: Let_def split: option.splits)

lemma subprocess_run_no_timeout:
  "fst (subprocess_run env cmd cwd None w) \<noteq> Inl (TimeoutExpired e)"
  unfolding subprocess_run_def
  by (simp add: Let_def split: option.splits)

lemma run_cmd_no_timeout_status:
  assumes "run_cmd env cmd cwd None w = (Inr (code, out), w')"
  shows "\<exists>q. os_spawn env cmd cwd (files w) (clock w) = Some q \<and> lifetime q \<noteq> None
           \<and> returncode q = code \<and> stdout q = out"
  using assms unfolding run_cmd_def subprocess_run_def
  by (auto simp add: Let_def split: option.splits if_splits)


lemma run_cmd_never_raises_timeout:
  "fst (run_cmd env cmd cwd timeout w) \<noteq> Inl (TimeoutExpired e)"
  unfolding run_cmd_def subprocess_run_def
  by (simp add: Let_def split: option.splits)

lemma run_cmd_aborts:
  "run_cmd env cmd cwd timeout w = (Inl e, w') \<Longrightarrow>
     e = OSError \<and> os_spawn env cmd cwd (files w) (clock w) = None
     \<or> e = Hang \<and> timeout = None
     \<or> e = UnicodeDecodeError"
  unfolding run_cmd_def subprocess_run_def
  by (auto simp add: Let_def split: option.splits if_splits)





subsection \<open>time\_solver\_exact and time\_solver\_approx\<close>

lemma time_solver_exact_result:
  assumes "run_cmd env (exact_cmd env (instance_path env n1 n2) kk) (PROJECT_ROOT env) (Some t) w
             = (Inr (code, out), w1)"
  shows "fst (time_solver_exact env (instance_path env n1 n2) kk t w)
           = Inr (if code \<noteq> 0 then None else Some (clock w1 - clock w))"
  using assms unfolding time_solver_exact_def
  by (simp add: Let_def stem_part_instance_path)


lemma time_solver_exact_timeout:
  assumes "os_spawn env (exact_cmd env (instance_path env n1 n2) kk) (PROJECT_ROOT env)
             (files w) (clock w) = Some p"
    and "\<not> exits_within p t"
  shows "fst (time_solver_exact env (instance_path env n1 n2) kk t w) = Inr None"
proof -
  obtain r w1 where rw: "run_cmd env (exact_cmd env (instance_path env n1 n2) kk)
      (PROJECT_ROOT env) (Some t) w = (r, w1)" by (cases "run_cmd env (exact_cmd env (instance_path env n1 n2) kk)
      (PROJECT_ROOT env) (Some t) w")
  have "r = Inr (124, ''TimeoutExpired: '' @ timeout_text env (exact_cmd env (instance_path env n1 n2) kk) t)"
    using run_cmd_timeout_result[OF assms(1), of t] assms(2) rw by simp
  then show ?thesis using time_solver_exact_result[of env n1 n2 kk t w 124 _ w1] rw by simp
qed




lemma time_solver_timeout_example:
  "fst (time_solver_exact env_hang (instance_path env_hang 4 25) 2 30 world0) = Inr None"
  using time_solver_exact_timeout[of env_hang 4 25 2 world0 "proc_hang {}" 30]
  by (simp add: env_hang_def env_with_def proc_hang_def world0_def exits_within_def)

subsection \<open>The series renderer\<close>

lemma mask_loop_filter:
  "mask_loop ps mx my =
     (mx @ map fst (filter plottable ps), my @ map (the \<circ> snd) (filter plottable ps))"
  by (induction ps mx my rule: mask_loop.induct) (simp_all add: plottable_def split: option.splits)

lemma mask_vals_filter:
  "mask_vals xs ys =
     (map fst (filter plottable (zip xs ys)), map (the \<circ> snd) (filter plottable (zip xs ys)))"
  unfolding mask_vals_def mask_loop_filter by simp

lemma mask_vals_all_masked:
  assumes "\<forall>y \<in> set ys. y = None \<or> (\<exists>t. y = Some t \<and> t \<le> 0)"
  shows "mask_vals xs ys = ([], [])"
proof -
  have "\<not> plottable p" if "p \<in> set (zip xs ys)" for p
  proof -
    have "snd p \<in> set ys" using that by (metis in_set_zipE prod.collapse)
    then show ?thesis using assms unfolding plottable_def by (auto split: option.splits)
  qed
  then have "filter plottable (zip xs ys) = []" by (simp add: filter_empty_conv)
  then show ?thesis unfolding mask_vals_filter by simp
qed

lemma plot_runtime_saved:
  "plot_runtime ns et ats n2 kk path w =
     (Inr (),
      say [Txt ''Saved figure to: '', Txt path]
        (savefig path
           \<lparr>series = filter (\<lambda>s. fst (snd s) \<noteq> [])
                       [(''Exact'', mask_vals ns et), (''Approximation'', mask_vals ns ats)],
            log_y = True\<rparr>
           (mkdir (parent path) w)))"
  unfolding plot_runtime_def by (simp add: Let_def split: prod.splits)

lemma plot_runtime2_saved:
  "plot_runtime2 ns ats n1 kk path lg w =
     (Inr (),
      say [Txt ''Saved figure to: '', Txt path]
        (savefig path
           \<lparr>series = filter (\<lambda>s. fst (snd s) \<noteq> []) [(''Approximation'', mask_vals ns ats)],
            log_y = lg\<rparr>
           (mkdir (parent path) w)))"
  unfolding plot_runtime2_def by (simp add: Let_def split: prod.splits)

lemma saved_say_savefig_mkdir:
  "saved (say l (savefig path fig (mkdir d w))) = saved w @ [(path, fig)]"
  by (simp add: say_def savefig_def mkdir_def)

text \<open>
  C6. The masking loop keeps exactly the (size, elapsed) pairs whose elapsed time is
  present and strictly positive, in the order of the input (it is a filter of the zipped
  lists). A series whose points are all absent, zero or negative keeps no point;
  plot\_runtime then returns normally all the same, and the saved figure holds only the
  series that kept a point, so the legend does not list the empty one.
\<close>

theorem series_renderer_masks:
  "mask_vals xs ys =
     (map fst (filter plottable (zip xs ys)), map (the \<circ> snd) (filter plottable (zip xs ys)))
   \<and> ((\<forall>y \<in> set ys. y = None \<or> (\<exists>t. y = Some t \<and> t \<le> 0)) \<longrightarrow> mask_vals xs ys = ([], []))
   \<and> fst (plot_runtime xs ys zs n2 kk path w) = Inr ()
   \<and> saved (snd (plot_runtime xs ys zs n2 kk path w)) =
        saved w @ [(path, \<lparr>series = filter (\<lambda>s. fst (snd s) \<noteq> [])
                       [(''Exact'', mask_vals xs ys), (''Approximation'', mask_vals xs zs)],
                     log_y = True\<rparr>)]
   \<and> fst (plot_runtime2 xs ys n1 kk path lg w) = Inr ()
   \<and> saved (snd (plot_runtime2 xs ys n1 kk path lg w)) =
        saved w @ [(path, \<lparr>series = filter (\<lambda>s. fst (snd s) \<noteq> [])
                       [(''Approximation'', mask_vals xs ys)],
                     log_y = lg\<rparr>)]"
proof (intro conjI impI)
  show "mask_vals xs ys =
     (map fst (filter plottable (zip xs ys)), map (the \<circ> snd) (filter plottable (zip xs ys)))"
    by (rule mask_vals_filter)
  show "mask_vals xs ys = ([], [])" if "\<forall>y \<in> set ys. y = None \<or> (\<exists>t. y = Some t \<and> t \<le> 0)"
    using that by (rule mask_vals_all_masked)
qed (simp_all only: plot_runtime_saved plot_runtime2_saved fst_conv snd_conv
      saved_say_savefig_mkdir)

theorem series_renderer_masks_witness:
  "mask_vals [2, 3, 4, 5] [Some 0.5, None, Some 0, Some 2] = ([2, 5], [0.5, 2])
   \<and> mask_vals [2, 3] [None, Some (- 1)] = ([], [])
   \<and> saved (snd (plot_runtime [2, 3] [None, Some (- 1)] [Some 1, Some 3] 25 2 ''out.png'' world0))
       = [(''out.png'', \<lparr>series = [(''Approximation'', [2, 3], [1, 3])], log_y = True\<rparr>)]"
  using series_renderer_masks [of "[2, 3, 4, 5]" "[Some 0.5, None, Some 0, Some 2]"]
    series_renderer_masks [of "[2, 3]" "[None, Some (- 1)]" "[Some 1, Some 3]" 25 2 "''out.png''" world0]
    series_renderer_masks [of "[2, 3]" "[Some 1, Some 3]"]
  by (simp add: plottable_def world0_def)

subsection \<open>Instance provisioning\<close>

lemma say_fields [simp]:
  "files (say l w) = files w" "clock (say l w) = clock w" "spawned (say l w) = spawned w"
  "saved (say l w) = saved w" "printed (say l w) = printed w @ [l]"
  by (simp_all add: say_def)

lemma mkdir_fields [simp]:
  "files (mkdir d w) = insert d (files w)" "clock (mkdir d w) = clock w"
  "spawned (mkdir d w) = spawned w" "saved (mkdir d w) = saved w"
  "printed (mkdir d w) = printed w"
  by (simp_all add: mkdir_def)

lemma generate_instance_spawned:
  "spawned (snd (generate_instance env pc n1 n2 dg dh sd path w)) =
     spawned w @ [(generator_cmd env n1 n2 dg dh sd path, PROJECT_ROOT env, None)]"
proof -
  let ?w1 = "if pc then say [Lst (generator_cmd env n1 n2 dg dh sd path)] (mkdir (parent path) w)
             else mkdir (parent path) w"
  let ?c = "generator_cmd env n1 n2 dg dh sd path"
  have s: "spawned (snd (run_cmd env ?c (PROJECT_ROOT env) None ?w1)) =
             spawned w @ [(?c, PROJECT_ROOT env, None)]"
    unfolding run_cmd_spawned by simp
  obtain r w2 where rw: "run_cmd env ?c (PROJECT_ROOT env) None ?w1 = (r, w2)"
    by (cases "run_cmd env ?c (PROJECT_ROOT env) None ?w1")
  then have "spawned w2 = spawned w @ [(?c, PROJECT_ROOT env, None)]" using s by simp
  then show ?thesis using rw unfolding generate_instance_def
    by (simp add: Let_def split: sum.splits prod.splits)
qed


lemma provision_existing:
  "instance_path env n1 n2 \<in> files w \<Longrightarrow>
     provision env pc a n1 n2 w =
       (Inr (), say [Txt ''Using existing instance: '', Txt (instance_path env n1 n2)] w)"
  unfolding provision_def path_exists_def by (simp add: Let_def)

lemma provision_spawned:
  "spawned (snd (provision env pc a n1 n2 w)) =
     spawned w @
       (if instance_path env n1 n2 \<in> files w then []
        else [(generator_cmd env n1 n2 (args_density_g a) (args_density_h a)
                 (Some (args_seed a)) (instance_path env n1 n2), PROJECT_ROOT env, None)])"
  unfolding provision_def path_exists_def
  by (simp add: Let_def generate_instance_spawned)


lemma world0_fields:
  "files world0 = {}" "clock world0 = 0" "spawned world0 = []" "printed world0 = []"
  "saved world0 = []"
  by (simp_all add: world0_def)

lemma provision_env_ok:
  "files (snd (provision env_ok True args0 4 25 world0)) =
     {instance_path env_ok 4 25, parent (instance_path env_ok 4 25)}"
  by (simp add: provision_def path_exists_def generate_instance_def run_cmd_def
      subprocess_run_def env_ok_def env_with_def proc_exit_def writes_output_def
      generator_cmd_def world0_def Let_def)

lemma exact_step_drift:
  "exact_step env (a1\<lparr>args_density_g := dg, args_density_h := dh, args_seed := sd\<rparr>) n1 st w
     = exact_step env a1 n1 st w"
  unfolding exact_step_def by simp

lemma approx_step_drift:
  "approx_step env (a1\<lparr>args_density_g := dg, args_density_h := dh, args_seed := sd\<rparr>) n1 st w
     = approx_step env a1 n1 st w"
  unfolding approx_step_def by simp

text \<open>
  C7. When the instance file exists, the provisioning step returns at once: it prints
  one line, starts no process and leaves the file system as it is. So when the file
  exists after a first provisioning of a path, a second provisioning of the same path
  starts nothing, and the two calls together start the generator at most once.
\<close>

theorem provision_idempotent:
  "(instance_path env n1 n2 \<in> files w \<longrightarrow>
      provision env pc a n1 n2 w =
        (Inr (), say [Txt ''Using existing instance: '', Txt (instance_path env n1 n2)] w)
      \<and> spawned (snd (provision env pc a n1 n2 w)) = spawned w
      \<and> files (snd (provision env pc a n1 n2 w)) = files w)
   \<and> (provision env pc a n1 n2 w = (r, w1) \<and> instance_path env n1 n2 \<in> files w1 \<longrightarrow>
      fst (provision env pc a n1 n2 w1) = Inr ()
      \<and> spawned (snd (provision env pc a n1 n2 w1)) = spawned w1
      \<and> length (spawned (snd (provision env pc a n1 n2 w1))) \<le> Suc (length (spawned w)))"
proof (intro conjI impI)
  assume "provision env pc a n1 n2 w = (r, w1) \<and> instance_path env n1 n2 \<in> files w1"
  then have p: "provision env pc a n1 n2 w = (r, w1)" and f: "instance_path env n1 n2 \<in> files w1"
    by simp_all
  show "fst (provision env pc a n1 n2 w1) = Inr ()" by (simp add: provision_existing[OF f])
  show s: "spawned (snd (provision env pc a n1 n2 w1)) = spawned w1"
    by (simp add: provision_existing[OF f])
  have "length (spawned w1) \<le> Suc (length (spawned w))"
    using provision_spawned[of env pc a n1 n2 w] p by simp
  then show "length (spawned (snd (provision env pc a n1 n2 w1))) \<le> Suc (length (spawned w))"
    unfolding s .
qed (simp_all add: provision_existing)

theorem provision_idempotent_witness:
  "provision env_ok True args0 4 25 (world0\<lparr>files := {instance_path env_ok 4 25}\<rparr>) =
     (Inr (), say [Txt ''Using existing instance: '', Txt (instance_path env_ok 4 25)]
        (world0\<lparr>files := {instance_path env_ok 4 25}\<rparr>))
   \<and> spawned (snd (provision env_ok True args0 4 25
         (snd (provision env_ok True args0 4 25 world0)))) =
       spawned (snd (provision env_ok True args0 4 25 world0))
   \<and> length (spawned (snd (provision env_ok True args0 4 25
         (snd (provision env_ok True args0 4 25 world0))))) \<le> Suc 0"
  using provision_idempotent [of env_ok 4 25 "world0\<lparr>files := {instance_path env_ok 4 25}\<rparr>" True args0]
    provision_idempotent [of env_ok 4 25 world0 True args0
      "fst (provision env_ok True args0 4 25 world0)"
      "snd (provision env_ok True args0 4 25 world0)"]
    provision_env_ok
  by (simp add: world0_fields provision_spawned)

text \<open>
  C8. The path of the cached instance is computed from the two sizes alone. On a cache
  hit the provisioning step, and with it the whole loop body of either script, does the
  same whatever the densities and the seed are; on a miss the generator is told to write
  to that same path, with the densities and the seed only in its other arguments.
\<close>

theorem cache_hit_ignores_parameters:
  "(instance_path env n1 n2 \<in> files w \<longrightarrow>
      provision env pc a n1 n2 w = provision env pc b n1 n2 w)
   \<and> (instance_path env n1 (args_n2 a1) \<in> files w \<longrightarrow>
      sweep_point env (a1\<lparr>args_density_g := dg, args_density_h := dh, args_seed := sd\<rparr>) n1 st w
        = sweep_point env a1 n1 st w)
   \<and> (instance_path env (args_n1 a2) n2 \<in> files w \<longrightarrow>
      sweep_point2 env (a2\<lparr>args_density_g := dg, args_density_h := dh, args_seed := sd\<rparr>) n2 ts w
        = sweep_point2 env a2 n2 ts w)
   \<and> spawned (snd (provision env pc a n1 n2 w)) =
       spawned w @
         (if instance_path env n1 n2 \<in> files w then []
          else [(generator_cmd env n1 n2 (args_density_g a) (args_density_h a)
                   (Some (args_seed a)) (instance_path env n1 n2), PROJECT_ROOT env, None)])"
proof (intro conjI impI)
  show "provision env pc a n1 n2 w = provision env pc b n1 n2 w"
    if "instance_path env n1 n2 \<in> files w"
    using that by (simp add: provision_existing)
  show "sweep_point env (a1\<lparr>args_density_g := dg, args_density_h := dh, args_seed := sd\<rparr>) n1 st w
          = sweep_point env a1 n1 st w"
    if "instance_path env n1 (args_n2 a1) \<in> files w"
    using that unfolding sweep_point_def exact_step_drift approx_step_drift
    by (simp add: provision_existing)
  show "sweep_point2 env (a2\<lparr>args_density_g := dg, args_density_h := dh, args_seed := sd\<rparr>) n2 ts w
          = sweep_point2 env a2 n2 ts w"
    if "instance_path env (args_n1 a2) n2 \<in> files w"
    using that unfolding sweep_point2_def
    by (simp add: provision_existing)
qed (rule provision_spawned)

theorem cache_hit_ignores_parameters_witness:
  "provision env_ok True args0 4 25 (world0\<lparr>files := {instance_path env_ok 4 25}\<rparr>)
     = provision env_ok True (args0\<lparr>args_density_g := 0.9, args_seed := 7\<rparr>) 4 25
         (world0\<lparr>files := {instance_path env_ok 4 25}\<rparr>)
   \<and> sweep_point env_ok (args0\<lparr>args_density_g := 0.9, args_density_h := 0.1, args_seed := 7\<rparr>)
         4 init_state (world0\<lparr>files := {instance_path env_ok 4 25}\<rparr>)
     = sweep_point env_ok args0 4 init_state (world0\<lparr>files := {instance_path env_ok 4 25}\<rparr>)
   \<and> sweep_point2 env_ok (args20\<lparr>args_density_g := 0.9, args_density_h := 0.1, args_seed := 7\<rparr>)
         10 [] (world0\<lparr>files := {instance_path env_ok 8 10}\<rparr>)
     = sweep_point2 env_ok args20 10 [] (world0\<lparr>files := {instance_path env_ok 8 10}\<rparr>)"
proof -
  have n: "args_n2 args0 = 25" "args_n1 args20 = 8" by (simp_all add: args0_def args20_def)
  note A = cache_hit_ignores_parameters [where env = env_ok and ?n1.0 = 4 and ?n2.0 = 25
      and w = "world0\<lparr>files := {instance_path env_ok 4 25}\<rparr>" and pc = True and a = args0
      and b = "args0\<lparr>args_density_g := 0.9, args_seed := 7\<rparr>"
      and ?a1.0 = args0 and dg = "0.9" and dh = "0.1" and sd = 7 and st = init_state
      and ?a2.0 = args20 and ts = "[]"]
  note B = cache_hit_ignores_parameters [where env = env_ok and ?n1.0 = 8 and ?n2.0 = 10
      and w = "world0\<lparr>files := {instance_path env_ok 8 10}\<rparr>" and pc = True and a = args0
      and b = args0 and ?a1.0 = args0 and dg = "0.9" and dh = "0.1" and sd = 7
      and st = init_state and ?a2.0 = args20 and ts = "[]"]
  have 1: "provision env_ok True args0 4 25 (world0\<lparr>files := {instance_path env_ok 4 25}\<rparr>)
     = provision env_ok True (args0\<lparr>args_density_g := 0.9, args_seed := 7\<rparr>) 4 25
         (world0\<lparr>files := {instance_path env_ok 4 25}\<rparr>)"
    using A by simp
  have 2: "sweep_point env_ok (args0\<lparr>args_density_g := 0.9, args_density_h := 0.1, args_seed := 7\<rparr>)
         4 init_state (world0\<lparr>files := {instance_path env_ok 4 25}\<rparr>)
     = sweep_point env_ok args0 4 init_state (world0\<lparr>files := {instance_path env_ok 4 25}\<rparr>)"
    using A n by simp
  have 3: "sweep_point2 env_ok (args20\<lparr>args_density_g := 0.9, args_density_h := 0.1, args_seed := 7\<rparr>)
         10 [] (world0\<lparr>files := {instance_path env_ok 8 10}\<rparr>)
     = sweep_point2 env_ok args20 10 [] (world0\<lparr>files := {instance_path env_ok 8 10}\<rparr>)"
    using B n by simp
  show ?thesis using 1 2 3 by blast
qed

subsection \<open>The loop body, step by step\<close>


lemma time_solver_exact_spawned:
  "spawned (snd (time_solver_exact env p kk t w)) =
     spawned w @ [(exact_cmd env p kk, PROJECT_ROOT env, Some t)]"
proof -
  obtain r w1 where rw: "run_cmd env (exact_cmd env p kk) (PROJECT_ROOT env) (Some t) w = (r, w1)"
    by (cases "run_cmd env (exact_cmd env p kk) (PROJECT_ROOT env) (Some t) w")
  then have "spawned w1 = spawned w @ [(exact_cmd env p kk, PROJECT_ROOT env, Some t)]"
    using run_cmd_spawned[of env "exact_cmd env p kk" "PROJECT_ROOT env" "Some t" w] by simp
  then show ?thesis using rw unfolding time_solver_exact_def
    by (simp add: Let_def split: sum.splits prod.splits)
qed


lemma time_solver_approx_gen_spawned:
  "spawned (snd (time_solver_approx_gen env b tag part p kk m t w)) =
     spawned w @ [(approx_cmd env b p kk m, PROJECT_ROOT env, Some t)]"
proof -
  obtain r w1 where rw: "run_cmd env (approx_cmd env b p kk m) (PROJECT_ROOT env) (Some t) w = (r, w1)"
    by (cases "run_cmd env (approx_cmd env b p kk m) (PROJECT_ROOT env) (Some t) w")
  then have "spawned w1 = spawned w @ [(approx_cmd env b p kk m, PROJECT_ROOT env, Some t)]"
    using run_cmd_spawned[of env "approx_cmd env b p kk m" "PROJECT_ROOT env" "Some t" w] by simp
  then show ?thesis using rw unfolding time_solver_approx_gen_def
    by (simp add: Let_def split: sum.splits prod.splits)
qed


text \<open>The call of the exact solver that the loop makes for size \<open>n\<close>.\<close>

lemma exact_step_spawned:
  "spawned (snd (exact_step env a n st w)) =
     spawned w @
       (if exact_failed st then []
        else [(exact_cmd env (instance_path env n (args_n2 a)) (args_k a), PROJECT_ROOT env,
               Some (args_timeout_seconds a))])"
proof (cases "exact_failed st")
  case True
  then show ?thesis unfolding exact_step_def by simp
next
  case False
  obtain r w1 where rw: "time_solver_exact env (instance_path env n (args_n2 a)) (args_k a)
      (args_timeout_seconds a) w = (r, w1)"
    by (cases "time_solver_exact env (instance_path env n (args_n2 a)) (args_k a)
      (args_timeout_seconds a) w")
  then have "spawned w1 = spawned w @ [(exact_cmd env (instance_path env n (args_n2 a)) (args_k a),
      PROJECT_ROOT env, Some (args_timeout_seconds a))]"
    using time_solver_exact_spawned[of env "instance_path env n (args_n2 a)" "args_k a"
        "args_timeout_seconds a" w] by simp
  then show ?thesis using rw False unfolding exact_step_def
    by (simp split: sum.splits)
qed


lemma exact_step_table:
  assumes "exact_step env a n st w = (Inr st1, w1)"
  shows "\<exists>r. exact_times st1 = exact_times st @ [r]
           \<and> (exact_failed st1 \<longleftrightarrow> exact_failed st \<or> r = None)
           \<and> (exact_failed st \<longrightarrow> r = None)
           \<and> approx_times st1 = approx_times st"
  using assms unfolding exact_step_def
  by (auto split: if_splits sum.splits prod.splits)

lemma approx_step_spawned:
  "spawned (snd (approx_step env a n st w)) =
     spawned w @
       [(approx_cmd env ''approx-solver'' (instance_path env n (args_n2 a)) (args_k a)
           (args_trials_multiplier a), PROJECT_ROOT env, Some (args_timeout_seconds a))]"
proof -
  obtain r w1 where rw: "time_solver_approx env (instance_path env n (args_n2 a)) (args_k a)
      (args_trials_multiplier a) (args_timeout_seconds a) w = (r, w1)"
    by (cases "time_solver_approx env (instance_path env n (args_n2 a)) (args_k a)
      (args_trials_multiplier a) (args_timeout_seconds a) w")
  then have "spawned w1 = spawned w @
       [(approx_cmd env ''approx-solver'' (instance_path env n (args_n2 a)) (args_k a)
           (args_trials_multiplier a), PROJECT_ROOT env, Some (args_timeout_seconds a))]"
    using time_solver_approx_gen_spawned[of env "''approx-solver''" "''n1''" 1
        "instance_path env n (args_n2 a)" "args_k a" "args_trials_multiplier a"
        "args_timeout_seconds a" w]
    unfolding time_solver_approx_def by simp
  then show ?thesis using rw unfolding approx_step_def
    by (simp split: sum.splits)
qed


lemma approx_step_table:
  assumes "approx_step env a n st w = (Inr st1, w1)"
  shows "exact_times st1 = exact_times st \<and> exact_failed st1 = exact_failed st
           \<and> (\<exists>r. approx_times st1 = approx_times st @ [r])"
  using assms unfolding approx_step_def
  by (auto split: sum.splits prod.splits)

subsection \<open>The loop\<close>

lemma sweep_point_spawned_ok:
  assumes "sweep_point env a n st w = (Inr st1, w1)"
  shows "spawned w1 =
     spawned w @
       (if instance_path env n (args_n2 a) \<in> files w then []
        else [(generator_cmd env n (args_n2 a) (args_density_g a) (args_density_h a)
                 (Some (args_seed a)) (instance_path env n (args_n2 a)), PROJECT_ROOT env, None)])
       @ (if exact_failed st then []
          else [(exact_cmd env (instance_path env n (args_n2 a)) (args_k a), PROJECT_ROOT env,
                 Some (args_timeout_seconds a))])
       @ [(approx_cmd env ''approx-solver'' (instance_path env n (args_n2 a)) (args_k a)
             (args_trials_multiplier a), PROJECT_ROOT env, Some (args_timeout_seconds a))]"
proof -
  obtain u wa where p: "provision env True a n (args_n2 a) w = (Inr u, wa)"
    using assms unfolding sweep_point_def by (auto split: sum.splits prod.splits)
  obtain sb wb where e: "exact_step env a n st wa = (Inr sb, wb)"
    using assms p unfolding sweep_point_def by (auto split: sum.splits prod.splits)
  have f: "approx_step env a n sb wb = (Inr st1, w1)"
    using assms p e unfolding sweep_point_def by simp
  have 1: "spawned wa = spawned w @
       (if instance_path env n (args_n2 a) \<in> files w then []
        else [(generator_cmd env n (args_n2 a) (args_density_g a) (args_density_h a)
                 (Some (args_seed a)) (instance_path env n (args_n2 a)), PROJECT_ROOT env, None)])"
    using provision_spawned[of env True a n "args_n2 a" w] p by simp
  have 2: "spawned wb = spawned wa @ (if exact_failed st then []
          else [(exact_cmd env (instance_path env n (args_n2 a)) (args_k a), PROJECT_ROOT env,
                 Some (args_timeout_seconds a))])"
    using exact_step_spawned[of env a n st wa] e by simp
  have 3: "spawned w1 = spawned wb @ [(approx_cmd env ''approx-solver'' (instance_path env n (args_n2 a)) (args_k a)
             (args_trials_multiplier a), PROJECT_ROOT env, Some (args_timeout_seconds a))]"
    using approx_step_spawned[of env a n sb wb] f by simp
  show ?thesis unfolding 3 2 1 by simp
qed

lemma sweep_point_table:
  assumes "sweep_point env a n st w = (Inr st1, w1)"
  shows "\<exists>r. exact_times st1 = exact_times st @ [r]
           \<and> (exact_failed st1 \<longleftrightarrow> exact_failed st \<or> r = None)
           \<and> (exact_failed st \<longrightarrow> r = None)"
proof -
  obtain u wa where p: "provision env True a n (args_n2 a) w = (Inr u, wa)"
    using assms unfolding sweep_point_def by (auto split: sum.splits prod.splits)
  obtain sb wb where e: "exact_step env a n st wa = (Inr sb, wb)"
    using assms p unfolding sweep_point_def by (auto split: sum.splits prod.splits)
  have f: "approx_step env a n sb wb = (Inr st1, w1)"
    using assms p e unfolding sweep_point_def by simp
  show ?thesis using exact_step_table[OF e] approx_step_table[OF f] by auto
qed



lemma sweep_append:
  "sweep env a (xs @ ys) st w =
     (case sweep env a xs st w of
        (Inl e, w1) \<Rightarrow> (Inl e, w1)
      | (Inr s1, w1) \<Rightarrow> sweep env a ys s1 w1)"
  by (induction xs arbitrary: st w) (simp_all split: sum.splits prod.splits)

lemma sweep_table:
  assumes "sweep env a ns st w = (Inr st1, w1)"
  shows "\<exists>rs. exact_times st1 = exact_times st @ rs \<and> length rs = length ns
           \<and> (exact_failed st1 \<longleftrightarrow> exact_failed st \<or> None \<in> set rs)
           \<and> (exact_failed st \<longrightarrow> rs = replicate (length ns) None)"
  using assms
proof (induction ns arbitrary: st w)
  case Nil
  then show ?case by simp
next
  case (Cons n ns)
  obtain sa wa where p: "sweep_point env a n st w = (Inr sa, wa)"
    using Cons.prems by (auto split: sum.splits prod.splits)
  then have rest: "sweep env a ns sa wa = (Inr st1, w1)" using Cons.prems by simp
  obtain r where r: "exact_times sa = exact_times st @ [r]"
      "exact_failed sa \<longleftrightarrow> exact_failed st \<or> r = None" "exact_failed st \<longrightarrow> r = None"
    using sweep_point_table[OF p] by blast
  obtain rs where rs: "exact_times st1 = exact_times sa @ rs" "length rs = length ns"
      "exact_failed st1 \<longleftrightarrow> exact_failed sa \<or> None \<in> set rs"
      "exact_failed sa \<longrightarrow> rs = replicate (length ns) None"
    using Cons.IH[OF rest] by blast
  show ?case
    by (rule exI[of _ "r # rs"]) (use r rs in auto)
qed


lemma sweep_split:
  assumes run: "sweep env a ns st0 w = (Inr st, w')" and j: "j < length ns"
  obtains s1 w1 s2 w2 where
    "sweep env a (take j ns) st0 w = (Inr s1, w1)"
    "sweep_point env a (ns ! j) s1 w1 = (Inr s2, w2)"
    "sweep env a (take (Suc j) ns) st0 w = (Inr s2, w2)"
    "sweep env a (drop (Suc j) ns) s2 w2 = (Inr st, w')"
proof -
  have ns: "ns = take j ns @ (ns ! j # drop (Suc j) ns)" using j by (simp add: id_take_nth_drop)
  have "sweep env a (take j ns @ (ns ! j # drop (Suc j) ns)) st0 w = (Inr st, w')"
    using run ns by simp
  then obtain s1 w1 where a1: "sweep env a (take j ns) st0 w = (Inr s1, w1)"
      and a2: "sweep env a (ns ! j # drop (Suc j) ns) s1 w1 = (Inr st, w')"
    unfolding sweep_append by (auto split: sum.splits prod.splits)
  obtain s2 w2 where b1: "sweep_point env a (ns ! j) s1 w1 = (Inr s2, w2)"
      and b2: "sweep env a (drop (Suc j) ns) s2 w2 = (Inr st, w')"
    using a2 by (auto split: sum.splits prod.splits)
  have "take (Suc j) ns = take j ns @ [ns ! j]" using j by (simp add: take_Suc_conv_app_nth)
  then have c: "sweep env a (take (Suc j) ns) st0 w = (Inr s2, w2)"
    using a1 b1 by (simp add: sweep_append)
  show thesis using that a1 b1 c b2 by blast
qed

lemma joinp_inject: "joinp d x = joinp d y \<longleftrightarrow> x = y"
  unfolding joinp_def by simp

lemma calls_of_simps:
  "calls_of env b [] = []"
  "calls_of env b (e # es) =
     (if take 1 (fst e) = [joinp (BIN_DIR env) b] then e # calls_of env b es else calls_of env b es)"
  "calls_of env b (es @ fs) = calls_of env b es @ calls_of env b fs"
  unfolding calls_of_def by simp_all

lemma cmd_heads:
  "take (Suc 0) (generator_cmd env n1 n2 dg dh sd p) = [joinp (BIN_DIR env) ''input-generator'']"
  "take (Suc 0) (exact_cmd env p kk) = [joinp (BIN_DIR env) ''exact-solver'']"
  "take (Suc 0) (approx_cmd env b p kk m) = [joinp (BIN_DIR env) b]"
  unfolding generator_cmd_def exact_cmd_def approx_cmd_def by simp_all

lemma env_growing_fields:
  "PROJECT_ROOT env_growing = ''/repo''"
  "os_spawn env_growing cmd cwd fs now =
     Some (if take 1 cmd = [''/repo/target/release/exact-solver'']
           then proc_exit 0 ''solved'' (20 * (now + 1)) fs
           else proc_exit 0 ''done'' 1 fs)"
  "timeout_text env_growing cmd t = ''timed out''"
  "BIN_DIR env_growing = ''/repo/target/release''"
  by (simp_all add: env_growing_def BIN_DIR_def joinp_def)

lemma world_full_fields:
  "files world_full = UNIV" "clock world_full = 0" "spawned world_full = []"
  "saved world_full = []"
  by (simp_all add: world_full_def)

lemma args0_fields:
  "args_n2 args0 = 25" "args_k args0 = 2" "args_timeout_seconds args0 = 30"
  "args_trials_multiplier args0 = 10" "args_n1_start args0 = 2" "args_n1_end args0 = 5"
  "args_n1_step args0 = 1"
  by (simp_all add: args0_def)

lemma sweep_growing:
  "fst (sweep env_growing args0 [2, 3, 4] init_state world_full) =
     Inr \<lparr>exact_times = [Some 20, None, None], approx_times = [Some 1, Some 1, Some 1],
          exact_failed = True\<rparr>"
  by (simp add: sweep_point_def provision_def path_exists_def exact_step_def approx_step_def
      time_solver_exact_def time_solver_approx_def time_solver_approx_gen_def
      run_cmd_def subprocess_run_def exact_cmd_def approx_cmd_def
      env_growing_fields world_full_fields args0_fields init_state_def proc_exit_def
      stem_part_instance_path joinp_def Let_def)

text \<open>
  C1. In the n1-sweep script, when the loop has run over the whole sweep and the exact
  solver's recorded outcome at index \<open>i\<close> is None, then at every later index \<open>j\<close> the
  recorded outcome is None too, and no exact-solver process is started while the loop is
  at index \<open>j\<close>. The table has one outcome for each size.
\<close>

theorem early_stop_monotone:
  assumes run: "sweep env a ns init_state w = (Inr st, w')"
    and ij: "i < j" and j: "j < length ns"
    and fail: "exact_times st ! i = None"
  shows "length (exact_times st) = length ns
         \<and> exact_times st ! j = None
         \<and> calls_of env ''exact-solver'' (point_spawns env a ns w j) = []"
proof -
  obtain s1 w1 s2 w2 where
      a: "sweep env a (take j ns) init_state w = (Inr s1, w1)"
    and b: "sweep_point env a (ns ! j) s1 w1 = (Inr s2, w2)"
    and c: "sweep env a (take (Suc j) ns) init_state w = (Inr s2, w2)"
    and d: "sweep env a (drop (Suc j) ns) s2 w2 = (Inr st, w')"
    using sweep_split[OF run j] by blast
  obtain rs1 where rs1: "exact_times s1 = rs1" "length rs1 = j"
      "exact_failed s1 \<longleftrightarrow> None \<in> set rs1"
    using sweep_table[OF a] j by (auto simp: init_state_def)
  obtain r where r: "exact_times s2 = exact_times s1 @ [r]" "exact_failed s1 \<longrightarrow> r = None"
    using sweep_point_table[OF b] by blast
  obtain rs3 where rs3: "exact_times st = exact_times s2 @ rs3" "length rs3 = length ns - Suc j"
    using sweep_table[OF d] by auto
  have all: "exact_times st = rs1 @ [r] @ rs3" using rs1 r rs3 by simp
  have len: "length (exact_times st) = length ns" unfolding all using rs1(2) rs3(2) j by simp
  have "exact_times st ! i = rs1 ! i" unfolding all using ij rs1(2) by (simp add: nth_append)
  then have "rs1 ! i = None" using fail by simp
  then have "None \<in> set rs1" using ij rs1(2) by (metis nth_mem)
  then have failed: "exact_failed s1" using rs1(3) by simp
  then have "r = None" using r(2) by simp
  then have atj: "exact_times st ! j = None" unfolding all using rs1(2) by (simp add: nth_append)
  have "spawned w2 = spawned w1 @
       (if instance_path env (ns ! j) (args_n2 a) \<in> files w1 then []
        else [(generator_cmd env (ns ! j) (args_n2 a) (args_density_g a) (args_density_h a)
                 (Some (args_seed a)) (instance_path env (ns ! j) (args_n2 a)), PROJECT_ROOT env, None)])
       @ [(approx_cmd env ''approx-solver'' (instance_path env (ns ! j) (args_n2 a)) (args_k a)
             (args_trials_multiplier a), PROJECT_ROOT env, Some (args_timeout_seconds a))]"
    using sweep_point_spawned_ok[OF b] failed by simp
  then have "point_spawns env a ns w j =
       (if instance_path env (ns ! j) (args_n2 a) \<in> files w1 then []
        else [(generator_cmd env (ns ! j) (args_n2 a) (args_density_g a) (args_density_h a)
                 (Some (args_seed a)) (instance_path env (ns ! j) (args_n2 a)), PROJECT_ROOT env, None)])
       @ [(approx_cmd env ''approx-solver'' (instance_path env (ns ! j) (args_n2 a)) (args_k a)
             (args_trials_multiplier a), PROJECT_ROOT env, Some (args_timeout_seconds a))]"
    unfolding point_spawns_def a c by simp
  then have "calls_of env ''exact-solver'' (point_spawns env a ns w j) = []"
    by (simp add: calls_of_simps cmd_heads joinp_inject)
  then show ?thesis using len atj by simp
qed

theorem early_stop_monotone_witness:
  "fst (sweep env_growing args0 [2, 3, 4] init_state world_full) =
     Inr \<lparr>exact_times = [Some 20, None, None], approx_times = [Some 1, Some 1, Some 1],
          exact_failed = True\<rparr>
   \<and> calls_of env_growing ''exact-solver'' (point_spawns env_growing args0 [2, 3, 4] world_full 2)
       = []"
proof -
  let ?S = "\<lparr>exact_times = [Some 20, None, None], approx_times = [Some 1, Some 1, Some 1],
          exact_failed = True\<rparr>"
  have h: "sweep env_growing args0 [2, 3, 4] init_state world_full =
             (Inr ?S, snd (sweep env_growing args0 [2, 3, 4] init_state world_full))"
    using sweep_growing by (cases "sweep env_growing args0 [2, 3, 4] init_state world_full") simp
  have "exact_times ?S ! 1 = None" by simp
  from early_stop_monotone [OF h _ _ this, of 2]
  have "calls_of env_growing ''exact-solver'' (point_spawns env_growing args0 [2, 3, 4] world_full 2) = []"
    by simp
  then show ?thesis using sweep_growing by blast
qed

lemma sweep_point2_spawned_ok:
  assumes "sweep_point2 env a n ts w = (Inr ts1, w1)"
  shows "spawned w1 =
     spawned w @
       (if instance_path env (args_n1 a) n \<in> files w then []
        else [(generator_cmd env (args_n1 a) n (args_density_g a) (args_density_h a)
                 (Some (args_seed a)) (instance_path env (args_n1 a) n), PROJECT_ROOT env, None)])
       @ [(approx_cmd env ''approx_solver'' (instance_path env (args_n1 a) n) (args_k a)
             (args_trials_multiplier a), PROJECT_ROOT env, Some (args_timeout_seconds a))]"
proof -
  obtain u wa where p: "provision env False a (args_n1 a) n w = (Inr u, wa)"
    using assms unfolding sweep_point2_def by (auto split: sum.splits prod.splits)
  obtain r where f: "time_solver_approx2 env (instance_path env (args_n1 a) n) (args_k a)
      (args_trials_multiplier a) (args_timeout_seconds a) wa = (Inr r, w1)"
    using assms p unfolding sweep_point2_def by (auto split: sum.splits prod.splits)
  have 1: "spawned wa = spawned w @
       (if instance_path env (args_n1 a) n \<in> files w then []
        else [(generator_cmd env (args_n1 a) n (args_density_g a) (args_density_h a)
                 (Some (args_seed a)) (instance_path env (args_n1 a) n), PROJECT_ROOT env, None)])"
    using provision_spawned[of env False a "args_n1 a" n w] p by simp
  have 3: "spawned w1 = spawned wa @ [(approx_cmd env ''approx_solver'' (instance_path env (args_n1 a) n) (args_k a)
             (args_trials_multiplier a), PROJECT_ROOT env, Some (args_timeout_seconds a))]"
    using time_solver_approx_gen_spawned[of env "''approx_solver''" "''n2''" 2
        "instance_path env (args_n1 a) n" "args_k a" "args_trials_multiplier a"
        "args_timeout_seconds a" wa] f
    unfolding time_solver_approx2_def by simp
  show ?thesis unfolding 3 1 by simp
qed

lemma sweep2_append:
  "sweep2 env a (xs @ ys) ts w =
     (case sweep2 env a xs ts w of
        (Inl e, w1) \<Rightarrow> (Inl e, w1)
      | (Inr s1, w1) \<Rightarrow> sweep2 env a ys s1 w1)"
  by (induction xs arbitrary: ts w) (simp_all split: sum.splits prod.splits)

lemma sweep2_split:
  assumes run: "sweep2 env a ns ts0 w = (Inr ts, w')" and j: "j < length ns"
  obtains s1 w1 s2 w2 where
    "sweep2 env a (take j ns) ts0 w = (Inr s1, w1)"
    "sweep_point2 env a (ns ! j) s1 w1 = (Inr s2, w2)"
    "sweep2 env a (take (Suc j) ns) ts0 w = (Inr s2, w2)"
proof -
  have ns: "ns = take j ns @ (ns ! j # drop (Suc j) ns)" using j by (simp add: id_take_nth_drop)
  have "sweep2 env a (take j ns @ (ns ! j # drop (Suc j) ns)) ts0 w = (Inr ts, w')"
    using run ns by simp
  then obtain s1 w1 where a1: "sweep2 env a (take j ns) ts0 w = (Inr s1, w1)"
      and a2: "sweep2 env a (ns ! j # drop (Suc j) ns) s1 w1 = (Inr ts, w')"
    unfolding sweep2_append by (auto split: sum.splits prod.splits)
  obtain s2 w2 where b1: "sweep_point2 env a (ns ! j) s1 w1 = (Inr s2, w2)"
    using a2 by (auto split: sum.splits prod.splits)
  have "take (Suc j) ns = take j ns @ [ns ! j]" using j by (simp add: take_Suc_conv_app_nth)
  then have c: "sweep2 env a (take (Suc j) ns) ts0 w = (Inr s2, w2)"
    using a1 b1 by (simp add: sweep2_append)
  show thesis using that a1 b1 c by blast
qed



lemma approx_calls_point:
  assumes run: "sweep env a ns init_state w = (Inr st, w')" and j: "j < length ns"
  shows "calls_of env ''approx-solver'' (point_spawns env a ns w j) =
        [(approx_cmd env ''approx-solver'' (instance_path env (ns ! j) (args_n2 a)) (args_k a)
            (args_trials_multiplier a), PROJECT_ROOT env, Some (args_timeout_seconds a))]"
proof -
  obtain s1 w1 s2 w2 where
      a: "sweep env a (take j ns) init_state w = (Inr s1, w1)"
    and b: "sweep_point env a (ns ! j) s1 w1 = (Inr s2, w2)"
    and c: "sweep env a (take (Suc j) ns) init_state w = (Inr s2, w2)"
    by (rule sweep_split[OF run j])
  have ps: "point_spawns env a ns w j = drop (length (spawned w1)) (spawned w2)"
    unfolding point_spawns_def a c by simp
  have dr: "drop (length (spawned w1)) (spawned w2) =
       (if instance_path env (ns ! j) (args_n2 a) \<in> files w1 then []
        else [(generator_cmd env (ns ! j) (args_n2 a) (args_density_g a) (args_density_h a)
                 (Some (args_seed a)) (instance_path env (ns ! j) (args_n2 a)), PROJECT_ROOT env, None)])
       @ (if exact_failed s1 then []
          else [(exact_cmd env (instance_path env (ns ! j) (args_n2 a)) (args_k a), PROJECT_ROOT env,
                 Some (args_timeout_seconds a))])
       @ [(approx_cmd env ''approx-solver'' (instance_path env (ns ! j) (args_n2 a)) (args_k a)
             (args_trials_multiplier a), PROJECT_ROOT env, Some (args_timeout_seconds a))]"
    using sweep_point_spawned_ok[OF b] by simp
  show ?thesis unfolding ps dr
    by (simp add: calls_of_simps cmd_heads joinp_inject)
qed


lemma approx_calls_point2:
  assumes run: "sweep2 env a ns [] w = (Inr ts, w')" and j: "j < length ns"
  shows "calls_of env ''approx_solver'' (point_spawns2 env a ns w j) =
        [(approx_cmd env ''approx_solver'' (instance_path env (args_n1 a) (ns ! j)) (args_k a)
            (args_trials_multiplier a), PROJECT_ROOT env, Some (args_timeout_seconds a))]"
proof -
  obtain s1 w1 s2 w2 where
      a: "sweep2 env a (take j ns) [] w = (Inr s1, w1)"
    and b: "sweep_point2 env a (ns ! j) s1 w1 = (Inr s2, w2)"
    and c: "sweep2 env a (take (Suc j) ns) [] w = (Inr s2, w2)"
    by (rule sweep2_split[OF run j])
  have ps: "point_spawns2 env a ns w j = drop (length (spawned w1)) (spawned w2)"
    unfolding point_spawns2_def a c by simp
  have dr: "drop (length (spawned w1)) (spawned w2) =
       (if instance_path env (args_n1 a) (ns ! j) \<in> files w1 then []
        else [(generator_cmd env (args_n1 a) (ns ! j) (args_density_g a) (args_density_h a)
                 (Some (args_seed a)) (instance_path env (args_n1 a) (ns ! j)), PROJECT_ROOT env, None)])
       @ [(approx_cmd env ''approx_solver'' (instance_path env (args_n1 a) (ns ! j)) (args_k a)
             (args_trials_multiplier a), PROJECT_ROOT env, Some (args_timeout_seconds a))]"
    using sweep_point2_spawned_ok[OF b] by simp
  show ?thesis unfolding ps dr
    by (simp add: calls_of_simps cmd_heads joinp_inject)
qed

lemma env_exit_fields:
  "PROJECT_ROOT (env_exit rc d) = ''/repo''"
  "os_spawn (env_exit rc d) cmd cwd fs now = Some (proc_exit rc ''done'' d fs)"
  "timeout_text (env_exit rc d) cmd t = ''timed out''"
  "resolve (env_exit rc d) p = p"
  by (simp_all add: env_exit_def env_with_def)

lemma args20_fields:
  "args_n1 args20 = 8" "args_k args20 = 3" "args_timeout_seconds args20 = 60"
  "args_trials_multiplier args20 = 10" "args_n2_start args20 = 10" "args_n2_end args20 = 20"
  "args_n2_step args20 = 5" "args_no_log_scale args20 = False"
  by (simp_all add: args20_def)

lemma sweep_failing:
  "fst (sweep (env_exit 3 1) args0 [2, 3] init_state world_full) =
     Inr \<lparr>exact_times = [None, None], approx_times = [None, None], exact_failed = True\<rparr>"
  by (simp add: sweep_point_def provision_def path_exists_def exact_step_def approx_step_def
      time_solver_exact_def time_solver_approx_def time_solver_approx_gen_def
      run_cmd_def subprocess_run_def
      env_exit_fields world_full_fields args0_fields init_state_def proc_exit_def
      stem_part_instance_path Let_def)

lemma sweep2_failing:
  "fst (sweep2 (env_exit 3 1) args20 [10, 15] [] world_full) = Inr [None, None]"
  by (simp add: sweep_point2_def provision_def path_exists_def
      time_solver_approx2_def time_solver_approx_gen_def
      run_cmd_def subprocess_run_def
      env_exit_fields world_full_fields args20_fields proc_exit_def
      stem_part_instance_path Let_def)

text \<open>
  C9. The approximate solver is never stopped early. In either script, when the loop
  has run over the whole sweep, exactly one approx-solver process is started while the
  loop is at index \<open>j\<close>, for every index \<open>j\<close>, on the instance of that index and with
  the solver timeout, whatever the outcomes recorded before.
\<close>

theorem approx_never_stopped:
  "(sweep env a ns init_state w = (Inr st, w') \<and> j < length ns \<longrightarrow>
      calls_of env ''approx-solver'' (point_spawns env a ns w j) =
        [(approx_cmd env ''approx-solver'' (instance_path env (ns ! j) (args_n2 a)) (args_k a)
            (args_trials_multiplier a), PROJECT_ROOT env, Some (args_timeout_seconds a))])
   \<and> (sweep2 env a2 ns [] w = (Inr ts, w') \<and> j < length ns \<longrightarrow>
      calls_of env ''approx_solver'' (point_spawns2 env a2 ns w j) =
        [(approx_cmd env ''approx_solver'' (instance_path env (args_n1 a2) (ns ! j)) (args_k a2)
            (args_trials_multiplier a2), PROJECT_ROOT env, Some (args_timeout_seconds a2))])"
proof (intro conjI impI)
  assume "sweep env a ns init_state w = (Inr st, w') \<and> j < length ns"
  then show "calls_of env ''approx-solver'' (point_spawns env a ns w j) =
        [(approx_cmd env ''approx-solver'' (instance_path env (ns ! j) (args_n2 a)) (args_k a)
            (args_trials_multiplier a), PROJECT_ROOT env, Some (args_timeout_seconds a))]"
    using approx_calls_point[of env a ns w st w' j] by (elim conjE)
next
  assume "sweep2 env a2 ns [] w = (Inr ts, w') \<and> j < length ns"
  then show "calls_of env ''approx_solver'' (point_spawns2 env a2 ns w j) =
        [(approx_cmd env ''approx_solver'' (instance_path env (args_n1 a2) (ns ! j)) (args_k a2)
            (args_trials_multiplier a2), PROJECT_ROOT env, Some (args_timeout_seconds a2))]"
    using approx_calls_point2[of env a2 ns w ts w' j] by (elim conjE)
qed

theorem approx_never_stopped_witness:
  "fst (sweep (env_exit 3 1) args0 [2, 3] init_state world_full) =
     Inr \<lparr>exact_times = [None, None], approx_times = [None, None], exact_failed = True\<rparr>
   \<and> calls_of (env_exit 3 1) ''approx-solver''
         (point_spawns (env_exit 3 1) args0 [2, 3] world_full 1) =
       [(approx_cmd (env_exit 3 1) ''approx-solver'' (instance_path (env_exit 3 1) 3 25) 2 10,
         ''/repo'', Some 30)]
   \<and> fst (sweep2 (env_exit 3 1) args20 [10, 15] [] world_full) = Inr [None, None]
   \<and> calls_of (env_exit 3 1) ''approx_solver''
         (point_spawns2 (env_exit 3 1) args20 [10, 15] world_full 1) =
       [(approx_cmd (env_exit 3 1) ''approx_solver'' (instance_path (env_exit 3 1) 8 15) 3 10,
         ''/repo'', Some 60)]"
proof -
  let ?S = "\<lparr>exact_times = [None, None], approx_times = [None, None], exact_failed = True\<rparr>"
  have h: "sweep (env_exit 3 1) args0 [2, 3] init_state world_full =
             (Inr ?S, snd (sweep (env_exit 3 1) args0 [2, 3] init_state world_full))"
    using sweep_failing by (cases "sweep (env_exit 3 1) args0 [2, 3] init_state world_full") simp
  have h2: "sweep2 (env_exit 3 1) args20 [10, 15] [] world_full =
             (Inr [None, None], snd (sweep2 (env_exit 3 1) args20 [10, 15] [] world_full))"
    using sweep2_failing by (cases "sweep2 (env_exit 3 1) args20 [10, 15] [] world_full") simp
  note T = approx_never_stopped [where env = "env_exit 3 1" and a = args0 and ns = "[2, 3]"
      and w = world_full and st = ?S
      and w' = "snd (sweep (env_exit 3 1) args0 [2, 3] init_state world_full)" and j = 1
      and ?a2.0 = args20 and ts = "[]"]
  note T2 = approx_never_stopped [where env = "env_exit 3 1" and a = args0 and ns = "[10, 15]"
      and w = world_full and st = ?S
      and w' = "snd (sweep2 (env_exit 3 1) args20 [10, 15] [] world_full)" and j = 1
      and ?a2.0 = args20 and ts = "[None, None]"]
  have 1: "calls_of (env_exit 3 1) ''approx-solver''
         (point_spawns (env_exit 3 1) args0 [2, 3] world_full 1) =
       [(approx_cmd (env_exit 3 1) ''approx-solver'' (instance_path (env_exit 3 1) 3 25) 2 10,
         ''/repo'', Some 30)]"
    using T h by (simp add: args0_fields env_exit_fields)
  have 2: "calls_of (env_exit 3 1) ''approx_solver''
         (point_spawns2 (env_exit 3 1) args20 [10, 15] world_full 1) =
       [(approx_cmd (env_exit 3 1) ''approx_solver'' (instance_path (env_exit 3 1) 8 15) 3 10,
         ''/repo'', Some 60)]"
    using T2 h2 by (simp add: args20_fields env_exit_fields)
  show ?thesis using 1 2 sweep_failing sweep2_failing by simp
qed

subsection \<open>The time budget\<close>

lemma only_starts_refl: "spawned w' = spawned w \<Longrightarrow> only_starts P w w'"
  unfolding only_starts_def by simp

lemma only_starts_app:
  "spawned w' = spawned w @ es \<Longrightarrow> list_all P es \<Longrightarrow> only_starts P w w'"
  unfolding only_starts_def by simp

lemma only_starts_trans:
  assumes "only_starts P w w1" "only_starts P w1 w2"
  shows "only_starts P w w2"
proof -
  obtain es where es: "spawned w1 = spawned w @ es" "list_all P es"
    using assms(1) unfolding only_starts_def by (metis append_take_drop_id)
  obtain fs where fs: "spawned w2 = spawned w1 @ fs" "list_all P fs"
    using assms(2) unfolding only_starts_def by (metis append_take_drop_id)
  have "spawned w2 = spawned w @ (es @ fs)" using es fs by simp
  moreover have "list_all P (es @ fs)" using es fs by simp
  ultimately show ?thesis by (rule only_starts_app)
qed

lemma slash_in_joinp: "CHR ''/'' \<in> set (joinp d x)"
  unfolding joinp_def by simp

lemma cargo_not_joinp: "''cargo'' \<noteq> joinp d x"
proof
  assume "''cargo'' = joinp d x"
  then have "CHR ''/'' \<in> set ''cargo''" using slash_in_joinp[of d x] by simp
  then show False by simp
qed

lemma budget_ok_cmds:
  "budget_ok env tmo ([''cargo'', ''build'', ''--release''], cwd, None)"
  "budget_ok env tmo (generator_cmd env n1 n2 dg dh sd p, cwd, None)"
  "budget_ok env tmo (exact_cmd env p kk, cwd, Some tmo)"
  "budget_ok env tmo (approx_cmd env ''approx-solver'' p kk m, cwd, Some tmo)"
  "budget_ok env tmo (approx_cmd env ''approx_solver'' p kk m, cwd, Some tmo)"
  unfolding budget_ok_def is_solver_cmd_def
  by (simp_all add: cmd_heads joinp_inject cargo_not_joinp)

lemma ensure_built_spawned:
  "spawned (snd (ensure_built env names w)) =
     spawned w @
       (if list_ex (\<lambda>name. \<not> path_exists (joinp (BIN_DIR env) name) w) names
        then [([''cargo'', ''build'', ''--release''], PROJECT_ROOT env, None)] else [])"
proof -
  let ?w1 = "say [Txt ''Building release binaries with cargo build --release ...''] w"
  obtain r w2 where rw: "run_cmd env [''cargo'', ''build'', ''--release''] (PROJECT_ROOT env) None ?w1 = (r, w2)"
    by (cases "run_cmd env [''cargo'', ''build'', ''--release''] (PROJECT_ROOT env) None ?w1")
  then have "spawned w2 = spawned w @ [([''cargo'', ''build'', ''--release''], PROJECT_ROOT env, None)]"
    using run_cmd_spawned[of env "[''cargo'', ''build'', ''--release'']" "PROJECT_ROOT env" None ?w1]
    by simp
  then show ?thesis using rw unfolding ensure_built_def
    by (simp add: Let_def split: sum.splits prod.splits)
qed


lemma ensure_built_budget: "only_starts (budget_ok env tmo) w (snd (ensure_built env names w))"
  by (rule only_starts_app[OF ensure_built_spawned]) (simp add: budget_ok_cmds)

lemma provision_budget: "only_starts (budget_ok env tmo) w (snd (provision env pc a n1 n2 w))"
  by (rule only_starts_app[OF provision_spawned]) (simp add: budget_ok_cmds)

lemma exact_step_budget:
  "only_starts (budget_ok env (args_timeout_seconds a)) w (snd (exact_step env a n st w))"
  by (rule only_starts_app[OF exact_step_spawned]) (simp add: budget_ok_cmds)

lemma approx_step_budget:
  "only_starts (budget_ok env (args_timeout_seconds a)) w (snd (approx_step env a n st w))"
  by (rule only_starts_app[OF approx_step_spawned]) (simp add: budget_ok_cmds)

lemma time_solver_approx2_budget:
  "only_starts (budget_ok env t) w (snd (time_solver_approx2 env p kk m t w))"
  unfolding time_solver_approx2_def
  by (rule only_starts_app[OF time_solver_approx_gen_spawned]) (simp add: budget_ok_cmds)

lemma sweep_point_budget:
  "only_starts (budget_ok env (args_timeout_seconds a)) w (snd (sweep_point env a n st w))"
proof -
  let ?P = "budget_ok env (args_timeout_seconds a)"
  obtain r wa where p: "provision env True a n (args_n2 a) w = (r, wa)"
    by (cases "provision env True a n (args_n2 a) w")
  have 1: "only_starts ?P w wa" using provision_budget[of env _ w True a n "args_n2 a"] p by simp
  show ?thesis
  proof (cases r)
    case (Inl x)
    then show ?thesis using p 1 unfolding sweep_point_def by simp
  next
    case (Inr u)
    obtain r2 wb where e: "exact_step env a n st wa = (r2, wb)"
      by (cases "exact_step env a n st wa")
    have "only_starts ?P wa wb" using exact_step_budget[of env a wa n st] e by simp
    then have 2: "only_starts ?P w wb" using 1 only_starts_trans by blast
    show ?thesis
    proof (cases r2)
      case (Inl x)
      then show ?thesis using p Inr e 2 unfolding sweep_point_def by simp
    next
      case (Inr sb)
      have "only_starts ?P wb (snd (approx_step env a n sb wb))" by (rule approx_step_budget)
      then have "only_starts ?P w (snd (approx_step env a n sb wb))"
        using 2 only_starts_trans by blast
      then show ?thesis using p \<open>r = Inr u\<close> e Inr unfolding sweep_point_def by simp
    qed
  qed
qed

lemma sweep_budget:
  "only_starts (budget_ok env (args_timeout_seconds a)) w (snd (sweep env a ns st w))"
proof (induction ns arbitrary: st w)
  case Nil
  then show ?case by (simp add: only_starts_refl)
next
  case (Cons n ns)
  obtain r w1 where p: "sweep_point env a n st w = (r, w1)" by (cases "sweep_point env a n st w")
  have 1: "only_starts (budget_ok env (args_timeout_seconds a)) w w1"
    using sweep_point_budget[of env a w n st] p by simp
  show ?case
  proof (cases r)
    case (Inl x)
    then show ?thesis using p 1 by simp
  next
    case (Inr s1)
    have "only_starts (budget_ok env (args_timeout_seconds a)) w1 (snd (sweep env a ns s1 w1))"
      by (rule Cons.IH)
    then show ?thesis using p Inr 1 only_starts_trans by fastforce
  qed
qed


lemma sweep_point2_budget:
  "only_starts (budget_ok env (args_timeout_seconds a)) w (snd (sweep_point2 env a n ts w))"
proof -
  let ?P = "budget_ok env (args_timeout_seconds a)"
  obtain r wa where p: "provision env False a (args_n1 a) n w = (r, wa)"
    by (cases "provision env False a (args_n1 a) n w")
  have 1: "only_starts ?P w wa" using provision_budget[of env _ w False a "args_n1 a" n] p by simp
  show ?thesis
  proof (cases r)
    case (Inl x)
    then show ?thesis using p 1 unfolding sweep_point2_def by simp
  next
    case (Inr u)
    obtain r2 wb where e: "time_solver_approx2 env (instance_path env (args_n1 a) n) (args_k a)
        (args_trials_multiplier a) (args_timeout_seconds a) wa = (r2, wb)"
      by (cases "time_solver_approx2 env (instance_path env (args_n1 a) n) (args_k a)
        (args_trials_multiplier a) (args_timeout_seconds a) wa")
    have "only_starts ?P wa wb"
      using time_solver_approx2_budget[of env "args_timeout_seconds a" wa
          "instance_path env (args_n1 a) n" "args_k a" "args_trials_multiplier a"] e by simp
    then have 2: "only_starts ?P w wb" using 1 only_starts_trans by blast
    show ?thesis using p Inr e 2 unfolding sweep_point2_def by (cases r2) simp_all
  qed
qed

lemma sweep2_budget:
  "only_starts (budget_ok env (args_timeout_seconds a)) w (snd (sweep2 env a ns ts w))"
proof (induction ns arbitrary: ts w)
  case Nil
  then show ?case by (simp add: only_starts_refl)
next
  case (Cons n ns)
  obtain r w1 where p: "sweep_point2 env a n ts w = (r, w1)" by (cases "sweep_point2 env a n ts w")
  have 1: "only_starts (budget_ok env (args_timeout_seconds a)) w w1"
    using sweep_point2_budget[of env a w n ts] p by simp
  show ?case
  proof (cases r)
    case (Inl x)
    then show ?thesis using p 1 by simp
  next
    case (Inr s1)
    have "only_starts (budget_ok env (args_timeout_seconds a)) w1 (snd (sweep2 env a ns s1 w1))"
      by (rule Cons.IH)
    then show ?thesis using p Inr 1 only_starts_trans by fastforce
  qed
qed

lemma say_all_fields [simp]:
  "files (say_all ls w) = files w" "clock (say_all ls w) = clock w"
  "spawned (say_all ls w) = spawned w" "saved (say_all ls w) = saved w"
  by (simp_all add: say_all_def)

lemma savefig_fields [simp]:
  "clock (savefig p f w) = clock w" "spawned (savefig p f w) = spawned w"
  "saved (savefig p f w) = saved w @ [(p, f)]"
  by (simp_all add: savefig_def)

lemma startup_budget: "only_starts (budget_ok env tmo) w (snd (startup env a w))"
proof (cases "sweep_values (args_n1_start a) (args_n1_end a) (args_n1_step a)")
  case (Inl e)
  then show ?thesis unfolding startup_def by (simp add: only_starts_refl)
next
  case (Inr ns)
  let ?w2 = "say [Txt ''Using fixed n2 (|VH|): '', Num (args_n2 a),
                  Txt '', varying n1 (|VG|): '', NumLst ns,
                  Txt '', k: '', Num (args_k a)]
               (say [Txt ''Project root: '', Txt (PROJECT_ROOT env)] w)"
  have a: "only_starts (budget_ok env tmo) w ?w2" by (simp add: only_starts_refl)
  have b: "only_starts (budget_ok env tmo) ?w2
      (snd (ensure_built env [''exact-solver'', ''approx-solver'', ''input-generator''] ?w2))"
    by (rule ensure_built_budget)
  have c: "only_starts (budget_ok env tmo) w
      (snd (ensure_built env [''exact-solver'', ''approx-solver'', ''input-generator''] ?w2))"
    using a b by (rule only_starts_trans)
  obtain r3 w3 where eb:
    "ensure_built env [''exact-solver'', ''approx-solver'', ''input-generator''] ?w2 = (r3, w3)"
    by (cases "ensure_built env [''exact-solver'', ''approx-solver'', ''input-generator''] ?w2")
  then have "only_starts (budget_ok env tmo) w w3" using c by simp
  then show ?thesis using Inr eb unfolding startup_def
    by (cases r3) (simp_all add: Let_def)
qed

lemma startup2_budget: "only_starts (budget_ok env tmo) w (snd (startup2 env a w))"
proof (cases "sweep_values (args_n2_start a) (args_n2_end a) (args_n2_step a)")
  case (Inl e)
  then show ?thesis unfolding startup2_def by (simp add: only_starts_refl)
next
  case (Inr ns)
  let ?w2 = "say [Txt ''Fixed n1 (|VG|): '', Num (args_n1 a),
                  Txt '', varying n2 (|VH|): '', NumLst ns,
                  Txt '', k: '', Num (args_k a)]
               (say [Txt ''Project root: '', Txt (PROJECT_ROOT env)] w)"
  have a: "only_starts (budget_ok env tmo) w ?w2" by (simp add: only_starts_refl)
  have b: "only_starts (budget_ok env tmo) ?w2
      (snd (ensure_built env [''approx_solver'', ''input-generator''] ?w2))"
    by (rule ensure_built_budget)
  have c: "only_starts (budget_ok env tmo) w
      (snd (ensure_built env [''approx_solver'', ''input-generator''] ?w2))"
    using a b by (rule only_starts_trans)
  obtain r3 w3 where eb:
    "ensure_built env [''approx_solver'', ''input-generator''] ?w2 = (r3, w3)"
    by (cases "ensure_built env [''approx_solver'', ''input-generator''] ?w2")
  then have "only_starts (budget_ok env tmo) w w3" using c by simp
  then show ?thesis using Inr eb unfolding startup2_def
    by (cases r3) (simp_all add: Let_def)
qed

lemma report_spawned: "spawned (snd (report env a ns st w)) = spawned w"
  unfolding report_def plot_runtime_saved by (simp add: Let_def)

lemma report2_spawned: "spawned (snd (report2 env a ns ts w)) = spawned w"
  unfolding report2_def plot_runtime2_saved by (simp add: Let_def)

lemma main_budget:
  "only_starts (budget_ok env (args_timeout_seconds a)) w (snd (main env a w))"
proof -
  let ?P = "budget_ok env (args_timeout_seconds a)"
  obtain r w1 where s: "startup env a w = (r, w1)" by (cases "startup env a w")
  have 1: "only_starts ?P w w1" using startup_budget[of env _ w a] s by simp
  show ?thesis
  proof (cases r)
    case (Inl e)
    then show ?thesis using s 1 unfolding main_def by simp
  next
    case (Inr ns)
    obtain r2 w2 where l: "sweep env a ns init_state w1 = (r2, w2)"
      by (cases "sweep env a ns init_state w1")
    have "only_starts ?P w1 w2" using sweep_budget[of env a w1 ns init_state] l by simp
    then have 2: "only_starts ?P w w2" using 1 only_starts_trans by blast
    show ?thesis
    proof (cases r2)
      case (Inl e)
      then show ?thesis using s Inr l 2 unfolding main_def by simp
    next
      case (Inr st)
      have "only_starts ?P w2 (snd (report env a ns st w2))"
        by (rule only_starts_refl) (rule report_spawned)
      then have "only_starts ?P w (snd (report env a ns st w2))"
        using 2 only_starts_trans by blast
      then show ?thesis using s \<open>r = Inr ns\<close> l Inr unfolding main_def by simp
    qed
  qed
qed

lemma main2_budget:
  "only_starts (budget_ok env (args_timeout_seconds a)) w (snd (main2 env a w))"
proof -
  let ?P = "budget_ok env (args_timeout_seconds a)"
  obtain r w1 where s: "startup2 env a w = (r, w1)" by (cases "startup2 env a w")
  have 1: "only_starts ?P w w1" using startup2_budget[of env _ w a] s by simp
  show ?thesis
  proof (cases r)
    case (Inl e)
    then show ?thesis using s 1 unfolding main2_def by simp
  next
    case (Inr ns)
    obtain r2 w2 where l: "sweep2 env a ns [] w1 = (r2, w2)"
      by (cases "sweep2 env a ns [] w1")
    have "only_starts ?P w1 w2" using sweep2_budget[of env a w1 ns "[]"] l by simp
    then have 2: "only_starts ?P w w2" using 1 only_starts_trans by blast
    show ?thesis
    proof (cases r2)
      case (Inl e)
      then show ?thesis using s Inr l 2 unfolding main2_def by simp
    next
      case (Inr ts)
      have "only_starts ?P w2 (snd (report2 env a ns ts w2))"
        by (rule only_starts_refl) (rule report2_spawned)
      then have "only_starts ?P w (snd (report2 env a ns ts w2))"
        using 2 only_starts_trans by blast
      then show ?thesis using s \<open>r = Inr ns\<close> l Inr unfolding main2_def by simp
    qed
  qed
qed


lemma generate_instance_hang:
  assumes "os_spawn env (generator_cmd env n1 n2 dg dh sd path) (PROJECT_ROOT env)
             (insert (parent path) (files w)) (clock w) = Some p"
    and "lifetime p = None"
  shows "fst (generate_instance env pc n1 n2 dg dh sd path w) = Inl Hang"
proof -
  let ?w1 = "if pc then say [Lst (generator_cmd env n1 n2 dg dh sd path)] (mkdir (parent path) w)
             else mkdir (parent path) w"
  have "os_spawn env (generator_cmd env n1 n2 dg dh sd path) (PROJECT_ROOT env)
             (files ?w1) (clock ?w1) = Some p" using assms(1) by simp
  then have "fst (run_cmd env (generator_cmd env n1 n2 dg dh sd path) (PROJECT_ROOT env) None ?w1)
      = Inl Hang"
    using run_cmd_no_timeout_result[of env _ _ ?w1 p] assms(2) by simp
  then show ?thesis unfolding generate_instance_def
    by (cases "run_cmd env (generator_cmd env n1 n2 dg dh sd path) (PROJECT_ROOT env) None ?w1")
      (simp add: Let_def)
qed

lemma ensure_built_hang:
  assumes "list_ex (\<lambda>name. \<not> path_exists (joinp (BIN_DIR env) name) w) names"
    and "os_spawn env [''cargo'', ''build'', ''--release''] (PROJECT_ROOT env) (files w) (clock w)
           = Some p"
    and "lifetime p = None"
  shows "fst (ensure_built env names w) = Inl Hang"
proof -
  let ?w1 = "say [Txt ''Building release binaries with cargo build --release ...''] w"
  have "os_spawn env [''cargo'', ''build'', ''--release''] (PROJECT_ROOT env)
             (files ?w1) (clock ?w1) = Some p" using assms(2) by simp
  then have "fst (run_cmd env [''cargo'', ''build'', ''--release''] (PROJECT_ROOT env) None ?w1)
      = Inl Hang"
    using run_cmd_no_timeout_result[of env _ _ ?w1 p] assms(3) by simp
  then show ?thesis using assms(1) unfolding ensure_built_def
    by (cases "run_cmd env [''cargo'', ''build'', ''--release''] (PROJECT_ROOT env) None ?w1")
      (simp add: Let_def)
qed

lemma run_cmd_timeout_no_hang: "fst (run_cmd env cmd cwd (Some t) w) \<noteq> Inl Hang"
  using run_cmd_aborts[of env cmd cwd "Some t" w Hang "snd (run_cmd env cmd cwd (Some t) w)"]
  by (cases "run_cmd env cmd cwd (Some t) w") auto

lemma time_solver_exact_no_hang: "fst (time_solver_exact env path kk t w) \<noteq> Inl Hang"
proof -
  obtain r w1 where rw: "run_cmd env (exact_cmd env path kk) (PROJECT_ROOT env) (Some t) w = (r, w1)"
    by (cases "run_cmd env (exact_cmd env path kk) (PROJECT_ROOT env) (Some t) w")
  then have "r \<noteq> Inl Hang"
    using run_cmd_timeout_no_hang[of env "exact_cmd env path kk" "PROJECT_ROOT env" t w] by simp
  then show ?thesis using rw unfolding time_solver_exact_def stem_part_def
    by (auto simp add: Let_def split: sum.splits prod.splits)
qed

lemma time_solver_approx_gen_no_hang:
  "fst (time_solver_approx_gen env b tag part path kk m t w) \<noteq> Inl Hang"
proof -
  obtain r w1 where rw: "run_cmd env (approx_cmd env b path kk m) (PROJECT_ROOT env) (Some t) w = (r, w1)"
    by (cases "run_cmd env (approx_cmd env b path kk m) (PROJECT_ROOT env) (Some t) w")
  then have "r \<noteq> Inl Hang"
    using run_cmd_timeout_no_hang[of env "approx_cmd env b path kk m" "PROJECT_ROOT env" t w] by simp
  then show ?thesis using rw unfolding time_solver_approx_gen_def stem_part_def
    by (auto simp add: Let_def split: sum.splits prod.splits)
qed

lemma env_hang_fields:
  "PROJECT_ROOT env_hang = ''/repo''"
  "os_spawn env_hang cmd cwd fs now = Some (proc_hang fs)"
  "timeout_text env_hang cmd t = ''timed out''"
  by (simp_all add: env_hang_def env_with_def)

lemma main_hang: "fst (main env_hang args0 world0) = Inl Hang"
  by (simp add: main_def startup_def sweep_values_scenario args0_fields ensure_built_def
      path_exists_def world0_fields run_cmd_def subprocess_run_def env_hang_fields
      proc_hang_def Let_def)

text \<open>
  C10. Only the solvers run under the time budget. Every process that \<open>main\<close> of
  either script starts is a solver with the timeout of the command line, or else the
  build or the generator with no timeout. Without a timeout \<open>subprocess.run\<close> never
  raises TimeoutExpired, and a status that run\_cmd returns is the exit status of the
  process itself, with its output, however late it exits: a build or a generation is
  never reported as a timeout. When such a process never exits, the build step or the
  generation step never returns. A timed solver call never blocks.
\<close>

theorem only_solvers_have_timeout:
  "only_starts (budget_ok env (args_timeout_seconds a)) w (snd (main env a w))
   \<and> only_starts (budget_ok env (args_timeout_seconds a2)) w (snd (main2 env a2 w))
   \<and> fst (subprocess_run env cmd cwd None w) \<noteq> Inl (TimeoutExpired e)
   \<and> (run_cmd env cmd cwd None w = (Inr (code, out), w') \<longrightarrow>
        (\<exists>q. os_spawn env cmd cwd (files w) (clock w) = Some q \<and> lifetime q \<noteq> None
           \<and> returncode q = code \<and> stdout q = out))
   \<and> (os_spawn env (generator_cmd env n1 n2 dg dh sd path) (PROJECT_ROOT env)
          (insert (parent path) (files w)) (clock w) = Some p \<and> lifetime p = None \<longrightarrow>
        fst (generate_instance env pc n1 n2 dg dh sd path w) = Inl Hang)
   \<and> (list_ex (\<lambda>name. \<not> path_exists (joinp (BIN_DIR env) name) w) names
        \<and> os_spawn env [''cargo'', ''build'', ''--release''] (PROJECT_ROOT env) (files w) (clock w)
            = Some p \<and> lifetime p = None \<longrightarrow>
        fst (ensure_built env names w) = Inl Hang)
   \<and> fst (time_solver_exact env path kk t w) \<noteq> Inl Hang
   \<and> fst (time_solver_approx env path kk m t w) \<noteq> Inl Hang
   \<and> fst (time_solver_approx2 env path kk m t w) \<noteq> Inl Hang"
proof (intro conjI impI)
  show "only_starts (budget_ok env (args_timeout_seconds a)) w (snd (main env a w))"
    by (rule main_budget)
  show "only_starts (budget_ok env (args_timeout_seconds a2)) w (snd (main2 env a2 w))"
    by (rule main2_budget)
  show "fst (subprocess_run env cmd cwd None w) \<noteq> Inl (TimeoutExpired e)"
    by (rule subprocess_run_no_timeout)
  show "\<exists>q. os_spawn env cmd cwd (files w) (clock w) = Some q \<and> lifetime q \<noteq> None
           \<and> returncode q = code \<and> stdout q = out"
    if "run_cmd env cmd cwd None w = (Inr (code, out), w')"
    using that by (rule run_cmd_no_timeout_status)
  show "fst (generate_instance env pc n1 n2 dg dh sd path w) = Inl Hang"
    if "os_spawn env (generator_cmd env n1 n2 dg dh sd path) (PROJECT_ROOT env)
          (insert (parent path) (files w)) (clock w) = Some p \<and> lifetime p = None"
    using that generate_instance_hang by simp
  show "fst (ensure_built env names w) = Inl Hang"
    if "list_ex (\<lambda>name. \<not> path_exists (joinp (BIN_DIR env) name) w) names
        \<and> os_spawn env [''cargo'', ''build'', ''--release''] (PROJECT_ROOT env) (files w) (clock w)
            = Some p \<and> lifetime p = None"
    using that ensure_built_hang by simp
  show "fst (time_solver_exact env path kk t w) \<noteq> Inl Hang"
    by (rule time_solver_exact_no_hang)
  show "fst (time_solver_approx env path kk m t w) \<noteq> Inl Hang"
    unfolding time_solver_approx_def by (rule time_solver_approx_gen_no_hang)
  show "fst (time_solver_approx2 env path kk m t w) \<noteq> Inl Hang"
    unfolding time_solver_approx2_def by (rule time_solver_approx_gen_no_hang)
qed

theorem only_solvers_have_timeout_witness:
  "only_starts (budget_ok env_hang 30) world0 (snd (main env_hang args0 world0))
   \<and> fst (main env_hang args0 world0) = Inl Hang
   \<and> fst (ensure_built env_hang [''exact-solver'', ''approx-solver'', ''input-generator''] world0)
       = Inl Hang
   \<and> fst (generate_instance env_hang True 4 25 0.35 0.2 (Some 12345)
            (instance_path env_hang 4 25) world_full) = Inl Hang
   \<and> fst (time_solver_exact env_hang (instance_path env_hang 4 25) 2 30 world_full) \<noteq> Inl Hang
   \<and> run_cmd (env_exit 3 100) [''cargo'', ''build'', ''--release''] ''/repo'' None world0
       = (Inr (3, ''done''),
          snd (run_cmd (env_exit 3 100) [''cargo'', ''build'', ''--release''] ''/repo'' None world0))
   \<and> (\<exists>q. os_spawn (env_exit 3 100) [''cargo'', ''build'', ''--release''] ''/repo''
            (files world0) (clock world0) = Some q
          \<and> lifetime q \<noteq> None \<and> returncode q = 3 \<and> stdout q = ''done'')"
proof -
  let ?late = "run_cmd (env_exit 3 100) [''cargo'', ''build'', ''--release''] ''/repo'' None world0"
  have 5: "?late = (Inr (3, ''done''), snd ?late)"
    by (cases ?late)
      (simp add: run_cmd_def subprocess_run_def env_exit_fields proc_exit_def Let_def)
  note V = only_solvers_have_timeout [where env = "env_exit 3 100" and w = world0
      and cmd = "[''cargo'', ''build'', ''--release'']" and cwd = "''/repo''"
      and code = 3 and out = "''done''" and w' = "snd ?late"]
  have 6: "\<exists>q. os_spawn (env_exit 3 100) [''cargo'', ''build'', ''--release''] ''/repo''
            (files world0) (clock world0) = Some q
          \<and> lifetime q \<noteq> None \<and> returncode q = 3 \<and> stdout q = ''done''"
    using V 5 by simp
  note T = only_solvers_have_timeout [where env = env_hang and a = args0 and ?a2.0 = args20
      and w = world0 and cmd = "[''cargo'', ''build'', ''--release'']" and cwd = "''/repo''"
      and p = "proc_hang {}"
      and names = "[''exact-solver'', ''approx-solver'', ''input-generator'']"]
  note U = only_solvers_have_timeout [where env = env_hang and a = args0 and ?a2.0 = args20
      and w = world_full and ?n1.0 = 4 and ?n2.0 = 25 and dg = "0.35" and dh = "0.2"
      and sd = "Some 12345" and path = "instance_path env_hang 4 25" and pc = True
      and p = "proc_hang UNIV" and kk = 2 and t = 30]
  have 1: "only_starts (budget_ok env_hang 30) world0 (snd (main env_hang args0 world0))"
    using T by (simp add: args0_fields)
  have 2: "fst (ensure_built env_hang [''exact-solver'', ''approx-solver'', ''input-generator''] world0)
       = Inl Hang"
    using T by (simp add: env_hang_fields world0_fields path_exists_def proc_hang_def)
  have 3: "fst (generate_instance env_hang True 4 25 0.35 0.2 (Some 12345)
            (instance_path env_hang 4 25) world_full) = Inl Hang"
    using U by (simp add: env_hang_fields world_full_fields proc_hang_def)
  have 4: "fst (time_solver_exact env_hang (instance_path env_hang 4 25) 2 30 world_full) \<noteq> Inl Hang"
    using U by simp
  show ?thesis using 1 2 3 4 5 6 main_hang by simp
qed

subsection \<open>Failures of the generator and of the solvers\<close>







































end
